theory Spec2Isabelle
  imports Main
begin

section \<open>The Go library functions that the sources call\<close>

text \<open>
  A Go \<^verbatim>\<open>string\<close> and a \<^verbatim>\<open>[]byte\<close> are sequences of bytes; both are modelled as
  \<^typ>\<open>string\<close>, a list of 8-bit characters.  The packages \<^verbatim>\<open>strings\<close>, \<^verbatim>\<open>bytes\<close>,
  \<^verbatim>\<open>unicode\<close>, \<^verbatim>\<open>unicode/utf8\<close> and \<^verbatim>\<open>strconv\<close> are not part of the repository;
  the functions the repository calls are written out here after their Go implementation,
  because white space in Go is a property of UTF-8 code points, not of bytes.
\<close>

subsection \<open>UTF-8 decoding and white space\<close>

type_synonym rune = int

definition RuneError :: rune where
  "RuneError = 0xFFFD"

definition byte :: "char \<Rightarrow> nat" where
  "byte c = of_char c"

text \<open>\<^verbatim>\<open>utf8.RuneStart\<close>: the byte is not a continuation byte \<^verbatim>\<open>10xxxxxx\<close>.\<close>

definition RuneStart :: "char \<Rightarrow> bool" where
  "RuneStart c = (\<not> (0x80 \<le> byte c \<and> byte c \<le> 0xBF))"

text \<open>
  \<^verbatim>\<open>utf8.DecodeRune\<close>.  The table \<^verbatim>\<open>first\<close> gives, for a leading byte in
  \<^verbatim>\<open>0xC2..0xF4\<close>, the length of the sequence and the range accepted for the second byte;
  every other non-ASCII leading byte, a short input and a byte out of range give
  \<^verbatim>\<open>(RuneError, 1)\<close>.  The masks and shifts of the source are written with \<open>mod\<close> and
  multiplication.
\<close>

definition rune_size :: "nat \<Rightarrow> nat" where
  "rune_size p0 = (if p0 \<le> 0xDF then 2 else if p0 \<le> 0xEF then 3 else 4)"

definition accept_lo :: "nat \<Rightarrow> nat" where
  "accept_lo p0 = (if p0 = 0xE0 then 0xA0 else if p0 = 0xF0 then 0x90 else 0x80)"

definition accept_hi :: "nat \<Rightarrow> nat" where
  "accept_hi p0 = (if p0 = 0xED then 0x9F else if p0 = 0xF4 then 0x8F else 0xBF)"

definition DecodeRune :: "string \<Rightarrow> rune \<times> nat" where
  "DecodeRune p =
     (if length p < 1 then (RuneError, 0)
      else let p0 = byte (p ! 0) in
        if p0 < 0x80 then (int p0, 1)
        else if p0 < 0xC2 \<or> 0xF4 < p0 then (RuneError, 1)
        else let sz = rune_size p0 in
          if length p < sz then (RuneError, 1)
          else let b1 = byte (p ! 1) in
            if b1 < accept_lo p0 \<or> accept_hi p0 < b1 then (RuneError, 1)
            else if sz \<le> 2 then (int (p0 mod 32 * 64 + b1 mod 64), 2)
            else let b2 = byte (p ! 2) in
              if b2 < 0x80 \<or> 0xBF < b2 then (RuneError, 1)
              else if sz \<le> 3 then (int (p0 mod 16 * 4096 + b1 mod 64 * 64 + b2 mod 64), 3)
              else let b3 = byte (p ! 3) in
                if b3 < 0x80 \<or> 0xBF < b3 then (RuneError, 1)
                else (int (p0 mod 8 * 262144 + b1 mod 64 * 4096 + b2 mod 64 * 64 + b3 mod 64), 4))"

text \<open>\<^verbatim>\<open>unicode.IsSpace\<close>: the Latin-1 switch, and the table \<^verbatim>\<open>White_Space\<close> above it.\<close>

definition IsSpace :: "rune \<Rightarrow> bool" where
  "IsSpace r =
     (if 0 \<le> r \<and> r \<le> 0xFF
      then r = 0x09 \<or> r = 0x0A \<or> r = 0x0B \<or> r = 0x0C \<or> r = 0x0D \<or> r = 0x20 \<or> r = 0x85 \<or> r = 0xA0
      else r = 0x1680 \<or> (0x2000 \<le> r \<and> r \<le> 0x200A) \<or> r = 0x2028 \<or> r = 0x2029 \<or>
           r = 0x202F \<or> r = 0x205F \<or> r = 0x3000)"

text \<open>A decoded rune is at least one byte wide, which is why the loops below terminate.\<close>

lemma DecodeRune_size: "p \<noteq> [] \<Longrightarrow> 1 \<le> snd (DecodeRune p) \<and> snd (DecodeRune p) \<le> length p"
  by (simp add: DecodeRune_def Let_def rune_size_def Suc_le_eq)

lemma DecodeRune_ascii: "byte c < 0x80 \<Longrightarrow> DecodeRune (c # p) = (int (byte c), 1)"
  by (simp add: DecodeRune_def)

text \<open>
  \<^verbatim>\<open>utf8.DecodeLastRune\<close>: walk back at most \<^verbatim>\<open>UTFMax = 4\<close> bytes to a byte that starts
  a rune, decode forwards from there, and accept the result only if it ends at the end
  of the input.
\<close>

function rune_start_back :: "string \<Rightarrow> int \<Rightarrow> int \<Rightarrow> int" where
  "rune_start_back p st lim =
     (if st \<ge> lim
      then (if RuneStart (p ! nat st) then st else rune_start_back p (st - 1) lim)
      else st)"
  by pat_completeness auto
termination
  by (relation "measure (\<lambda>(p, st, lim). nat (st - lim + 1))") auto

declare rune_start_back.simps [simp del]

definition DecodeLastRune :: "string \<Rightarrow> rune \<times> nat" where
  "DecodeLastRune p =
     (let end = int (length p) in
      if end = 0 then (RuneError, 0)
      else let r = byte (p ! nat (end - 1)) in
        if r < 0x80 then (int r, 1)
        else let lim = (if end - 4 < 0 then 0 else end - 4);
                 st = rune_start_back p (end - 2) lim;
                 st = (if st < 0 then 0 else st);
                 (r, sz) = DecodeRune (drop (nat st) p)
             in if st + int sz \<noteq> end then (RuneError, 1) else (r, sz))"

lemma rune_start_back_le: "rune_start_back p st lim \<le> st"
proof (induction p st lim rule: rune_start_back.induct)
  case (1 p st lim)
  then show ?case by (subst rune_start_back.simps) auto
qed

lemma DecodeLastRune_cases:
  assumes "p \<noteq> []"
  shows "DecodeLastRune p = (RuneError, 1) \<or>
         (\<exists>st < length p. DecodeRune (drop st p) = DecodeLastRune p
             \<and> st + snd (DecodeLastRune p) = length p)"
proof (cases "byte (p ! (length p - 1)) < 0x80")
  case True
  have "drop (length p - 1) p = [p ! (length p - 1)]"
    using assms by (metis append_butlast_last_id append_eq_conv_conj last_conv_nth length_butlast)
  then have "DecodeRune (drop (length p - 1) p) = (int (byte (p ! (length p - 1))), 1)"
    using True by (simp add: DecodeRune_ascii)
  moreover have "DecodeLastRune p = (int (byte (p ! (length p - 1))), 1)"
    using True assms by (simp add: DecodeLastRune_def Let_def nat_diff_distrib')
  ultimately show ?thesis
    using assms by (intro disjI2 exI [of _ "length p - 1"]) simp
next
  case False
  define lim where "lim = (if int (length p) - 4 < 0 then 0 else int (length p) - 4)"
  define st0 where "st0 = rune_start_back p (int (length p) - 2) lim"
  define st where "st = nat (if st0 < 0 then 0 else st0)"
  have st_lt: "st < length p"
    using rune_start_back_le [of p "int (length p) - 2" lim] assms
    by (auto simp add: st_def st0_def)
  have eq: "DecodeLastRune p =
      (if st + snd (DecodeRune (drop st p)) \<noteq> length p then (RuneError, 1) else DecodeRune (drop st p))"
    using False assms
    by (auto simp add: DecodeLastRune_def Let_def nat_diff_distrib' st_def st0_def lim_def
        split: prod.splits)
  show ?thesis
  proof (cases "st + snd (DecodeRune (drop st p)) = length p")
    case True
    then show ?thesis using eq st_lt by auto
  next
    case False
    then show ?thesis using eq by simp
  qed
qed

lemma DecodeLastRune_size:
  assumes "p \<noteq> []"
  shows "1 \<le> snd (DecodeLastRune p) \<and> snd (DecodeLastRune p) \<le> length p"
proof -
  from DecodeLastRune_cases [OF assms] show ?thesis
  proof
    assume "DecodeLastRune p = (RuneError, 1)"
    then show ?thesis using assms by (simp add: Suc_le_eq)
  next
    assume "\<exists>st < length p. DecodeRune (drop st p) = DecodeLastRune p
             \<and> st + snd (DecodeLastRune p) = length p"
    then obtain st where st: "st < length p" "DecodeRune (drop st p) = DecodeLastRune p"
      "st + snd (DecodeLastRune p) = length p" by blast
    have "1 \<le> snd (DecodeRune (drop st p))"
      using DecodeRune_size [of "drop st p"] st(1) by simp
    then show ?thesis using st by simp
  qed
qed

subsection \<open>Trimming and splitting into fields\<close>

lemma DecodeRune_drop_size:
  assumes "i < length s" "(r, sz) = DecodeRune (drop i s)"
  shows "length s - (i + sz) < length s - i"
proof -
  from assms(2) [symmetric] have "snd (DecodeRune (drop i s)) = sz" by simp
  moreover have "drop i s \<noteq> []" using assms(1) by simp
  ultimately have "1 \<le> sz" using DecodeRune_size [of "drop i s"] by simp
  then show ?thesis using assms(1) by simp
qed

lemma DecodeLastRune_take_size:
  assumes "0 < i" "i \<le> length s" "(r, sz) = DecodeLastRune (take i s)"
  shows "i - sz < i"
proof -
  from assms(3) [symmetric] have "snd (DecodeLastRune (take i s)) = sz" by simp
  moreover have "take i s \<noteq> []" using assms(1,2) by auto
  ultimately have "1 \<le> sz" using DecodeLastRune_size [of "take i s"] by simp
  then show ?thesis using assms(1) by simp
qed

text \<open>
  \<^verbatim>\<open>indexFunc\<close> and \<^verbatim>\<open>lastIndexFunc\<close> of the packages \<^verbatim>\<open>strings\<close> and \<^verbatim>\<open>bytes\<close>:
  the index of the first (last) rune for which \<open>f\<close> gives \<open>truth\<close>, or \<open>-1\<close>.  In
  \<^verbatim>\<open>lastIndexFunc\<close> the index \<open>i\<close> runs from \<^verbatim>\<open>len(s)\<close> downwards.
\<close>

function indexFunc :: "string \<Rightarrow> (rune \<Rightarrow> bool) \<Rightarrow> bool \<Rightarrow> nat \<Rightarrow> int" where
  "indexFunc s f truth st =
     (if st < length s
      then (let (r, wid) = DecodeRune (drop st s)
            in if f r = truth then int st else indexFunc s f truth (st + wid))
      else - 1)"
  by pat_completeness auto
termination
proof (relation "measure (\<lambda>(s, f, truth, st). length s - st)")
  fix s :: string and f :: "rune \<Rightarrow> bool" and truth st x r wid
  assume "st < length s" "x = DecodeRune (drop st s)" "(r, wid) = x"
  then have "length s - (st + wid) < length s - st"
    using DecodeRune_drop_size [of st s r wid] by simp
  then show "((s, f, truth, st + wid), (s, f, truth, st)) \<in> measure (\<lambda>(s, f, truth, st). length s - st)"
    by simp
qed simp

declare indexFunc.simps [simp del]

function lastIndexFunc :: "string \<Rightarrow> (rune \<Rightarrow> bool) \<Rightarrow> bool \<Rightarrow> nat \<Rightarrow> int" where
  "lastIndexFunc s f truth i =
     (if 0 < i \<and> i \<le> length s
      then (let (r, sz) = DecodeLastRune (take i s)
            in if f r = truth then int (i - sz) else lastIndexFunc s f truth (i - sz))
      else - 1)"
  by pat_completeness auto
termination
proof (relation "measure (\<lambda>(s, f, truth, i). i)")
  fix s :: string and f :: "rune \<Rightarrow> bool" and truth i x r sz
  assume "0 < i \<and> i \<le> length s" "x = DecodeLastRune (take i s)" "(r, sz) = x"
  then have "i - sz < i"
    using DecodeLastRune_take_size [of i s r sz] by simp
  then show "((s, f, truth, i - sz), (s, f, truth, i)) \<in> measure (\<lambda>(s, f, truth, i). i)"
    by simp
qed simp

declare lastIndexFunc.simps [simp del]

text \<open>
  \<^verbatim>\<open>TrimSpace(s)\<close> has a fast path for ASCII input and otherwise returns
  \<^verbatim>\<open>TrimFunc(s, unicode.IsSpace)\<close>; an ASCII byte decodes to itself, so both paths
  give the result of \<^verbatim>\<open>TrimFunc\<close>, which is what is modelled.  A \<^verbatim>\<open>nil\<close> slice and an
  empty slice are both the empty list.
\<close>

definition TrimLeftFunc :: "string \<Rightarrow> (rune \<Rightarrow> bool) \<Rightarrow> string" where
  "TrimLeftFunc s f =
     (let i = indexFunc s f False 0 in if i = - 1 then [] else drop (nat i) s)"

definition TrimRightFunc :: "string \<Rightarrow> (rune \<Rightarrow> bool) \<Rightarrow> string" where
  "TrimRightFunc s f =
     (let i = lastIndexFunc s f False (length s);
          i = (if i \<ge> 0 \<and> byte (s ! nat i) \<ge> 0x80
               then i + int (snd (DecodeRune (drop (nat i) s)))
               else i + 1)
      in take (nat i) s)"

definition TrimFunc :: "string \<Rightarrow> (rune \<Rightarrow> bool) \<Rightarrow> string" where
  "TrimFunc s f = TrimRightFunc (TrimLeftFunc s f) f"

definition TrimSpace :: "string \<Rightarrow> string" where
  "TrimSpace s = TrimFunc s IsSpace"

text \<open>
  \<^verbatim>\<open>FieldsFunc\<close>: the maximal runs of runes that do not satisfy \<open>f\<close>.  The source keeps
  the start index of the current field, or \<open>-1\<close>; the model keeps \<open>Some\<close> start index or
  \<open>None\<close>.  \<^verbatim>\<open>Fields(s)\<close> is \<^verbatim>\<open>FieldsFunc(s, unicode.IsSpace)\<close>, again up to an ASCII
  fast path.
\<close>

definition slice :: "string \<Rightarrow> nat \<Rightarrow> nat \<Rightarrow> string" where
  "slice s a b = take (b - a) (drop a s)"

function FieldsFunc_loop :: "string \<Rightarrow> (rune \<Rightarrow> bool) \<Rightarrow> nat \<Rightarrow> nat option \<Rightarrow> string list" where
  "FieldsFunc_loop s f i st =
     (if i < length s
      then (let (r, sz) = DecodeRune (drop i s)
            in if f r
               then (case st of
                       Some a \<Rightarrow> slice s a i # FieldsFunc_loop s f (i + sz) None
                     | None \<Rightarrow> FieldsFunc_loop s f (i + sz) None)
               else FieldsFunc_loop s f (i + sz) (case st of None \<Rightarrow> Some i | Some a \<Rightarrow> Some a))
      else (case st of Some a \<Rightarrow> [slice s a (length s)] | None \<Rightarrow> []))"
  by pat_completeness auto
termination
proof (relation "measure (\<lambda>(s, f, i, st). length s - i)")
  show "wf (measure (\<lambda>(s, f, i, st). length s - i))" by simp
next
  fix s :: string and f :: "rune \<Rightarrow> bool" and i :: nat and st :: "nat option" and x r sz x2
  assume "i < length s" "x = DecodeRune (drop i s)" "(r, sz) = x"
  then have "length s - (i + sz) < length s - i"
    using DecodeRune_drop_size [of i s r sz] by simp
  then show "((s, f, i + sz, None), (s, f, i, st)) \<in> measure (\<lambda>(s, f, i, st). length s - i)"
    by simp
next
  fix s :: string and f :: "rune \<Rightarrow> bool" and i :: nat and st :: "nat option" and x r sz
  assume "i < length s" "x = DecodeRune (drop i s)" "(r, sz) = x"
  then have "length s - (i + sz) < length s - i"
    using DecodeRune_drop_size [of i s r sz] by simp
  then show "((s, f, i + sz, None), (s, f, i, st)) \<in> measure (\<lambda>(s, f, i, st). length s - i)"
    by simp
next
  fix s :: string and f :: "rune \<Rightarrow> bool" and i :: nat and st :: "nat option" and x r sz
  assume "i < length s" "x = DecodeRune (drop i s)" "(r, sz) = x"
  then have "length s - (i + sz) < length s - i"
    using DecodeRune_drop_size [of i s r sz] by simp
  then show "((s, f, i + sz, case st of None \<Rightarrow> Some i | Some a \<Rightarrow> Some a), (s, f, i, st))
      \<in> measure (\<lambda>(s, f, i, st). length s - i)"
    by simp
qed

declare FieldsFunc_loop.simps [simp del]

definition FieldsFunc :: "string \<Rightarrow> (rune \<Rightarrow> bool) \<Rightarrow> string list" where
  "FieldsFunc s f = FieldsFunc_loop s f 0 None"

definition Fields :: "string \<Rightarrow> string list" where
  "Fields s = FieldsFunc s IsSpace"

subsection \<open>Prefixes, searching and splitting\<close>

definition HasPrefix :: "string \<Rightarrow> string \<Rightarrow> bool" where
  "HasPrefix s p \<longleftrightarrow> length p \<le> length s \<and> take (length p) s = p"

definition HasSuffix :: "string \<Rightarrow> string \<Rightarrow> bool" where
  "HasSuffix s p \<longleftrightarrow> length p \<le> length s \<and> drop (length s - length p) s = p"

definition TrimPrefix :: "string \<Rightarrow> string \<Rightarrow> string" where
  "TrimPrefix s p = (if HasPrefix s p then drop (length p) s else s)"

definition TrimSuffix :: "string \<Rightarrow> string \<Rightarrow> string" where
  "TrimSuffix s p = (if HasSuffix s p then take (length s - length p) s else s)"

text \<open>\<^verbatim>\<open>strings.Index\<close> and \<^verbatim>\<open>strings.LastIndex\<close>: the position of the first (last)
  occurrence of \<open>sep\<close>, or \<open>-1\<close>.\<close>

fun Index :: "string \<Rightarrow> string \<Rightarrow> int" where
  "Index [] sep = (if sep = [] then 0 else - 1)"
| "Index (c # cs) sep =
     (if HasPrefix (c # cs) sep then 0
      else (let i = Index cs sep in if i < 0 then - 1 else i + 1))"

fun LastIndex :: "string \<Rightarrow> string \<Rightarrow> int" where
  "LastIndex [] sep = (if sep = [] then 0 else - 1)"
| "LastIndex (c # cs) sep =
     (let i = LastIndex cs sep in
      if 0 \<le> i then i + 1 else if HasPrefix (c # cs) sep then 0 else - 1)"

text \<open>
  \<^verbatim>\<open>genSplit\<close>, behind \<^verbatim>\<open>Split\<close> and \<^verbatim>\<open>SplitN\<close>: cut at the first \<open>n - 1\<close>
  occurrences of the separator.  For \<open>n < 0\<close> the source counts the occurrences first; the
  loop stops at the first miss of \<^verbatim>\<open>Index\<close> in any case, so the model bounds it by the
  length of the input.  The sources only split on the non-empty separators
  \<^verbatim>\<open>"\n"\<close>, \<^verbatim>\<open>": "\<close>, \<^verbatim>\<open>" at "\<close>, \<^verbatim>\<open>","\<close> and the tag byte; the branch of
  \<^verbatim>\<open>genSplit\<close> for an empty separator (one piece per rune) is not modelled and no
  statement below depends on the value \<open>[s]\<close> given for it.
\<close>

primrec genSplit_loop :: "nat \<Rightarrow> string \<Rightarrow> string \<Rightarrow> string list" where
  "genSplit_loop 0 s sep = [s]"
| "genSplit_loop (Suc n) s sep =
     (let m = Index s sep in
      if m < 0 then [s]
      else take (nat m) s # genSplit_loop n (drop (nat m + length sep) s) sep)"

definition genSplit :: "string \<Rightarrow> string \<Rightarrow> int \<Rightarrow> string list" where
  "genSplit s sep n =
     (if n = 0 then []
      else if sep = [] then [s]
      else genSplit_loop
             (if n < 0 then length s else nat (min n (int (length s) + 1)) - 1) s sep)"

definition Split :: "string \<Rightarrow> string \<Rightarrow> string list" where
  "Split s sep = genSplit s sep (- 1)"

definition SplitN :: "string \<Rightarrow> string \<Rightarrow> int \<Rightarrow> string list" where
  "SplitN s sep n = genSplit s sep n"

subsection \<open>Errors, panics and \<^verbatim>\<open>strconv.Atoi\<close>\<close>

text \<open>
  A Go function with an \<^verbatim>\<open>error\<close> result returns a value or an error; an index or a
  slice bound out of range is a run-time panic, which is a third outcome.
\<close>

datatype error =
    ErrSyntax string
  | ErrRange string
  | ErrorNew string
  | Errorf string "string list"
  | ErrorWrap string error

datatype 'a result = Value 'a | Error error | Crash string

fun rbind :: "'a result \<Rightarrow> ('a \<Rightarrow> 'b result) \<Rightarrow> 'b result" where
  "rbind (Value x) f = f x"
| "rbind (Error e) f = Error e"
| "rbind (Crash m) f = Crash m"

text \<open>
  \<^verbatim>\<open>strconv.Atoi\<close>: an optional sign and at least one decimal digit, nothing else
  (\<^verbatim>\<open>ErrSyntax\<close>), with a value that fits the 64-bit \<^verbatim>\<open>int\<close> (\<^verbatim>\<open>ErrRange\<close>).
\<close>

definition is_digit :: "char \<Rightarrow> bool" where
  "is_digit c \<longleftrightarrow> 0x30 \<le> byte c \<and> byte c \<le> 0x39"

definition digits_value :: "string \<Rightarrow> int" where
  "digits_value ds = foldl (\<lambda>n c. n * 10 + (int (byte c) - 0x30)) 0 ds"

definition Atoi :: "string \<Rightarrow> int result" where
  "Atoi s =
     (let ds = (if s \<noteq> [] \<and> (hd s = CHR ''-'' \<or> hd s = CHR ''+'') then tl s else s) in
      if ds = [] \<or> \<not> list_all is_digit ds then Error (ErrSyntax s)
      else let n = digits_value ds;
               v = (if hd s = CHR ''-'' then - n else n)
           in if v < - (2 ^ 63) \<or> 2 ^ 63 - 1 < v then Error (ErrRange s) else Value v)"

text \<open>
  Indexing and slicing with Go's bounds checks.  The lists sliced below are results of
  \<^verbatim>\<open>Fields\<close>, \<^verbatim>\<open>FieldsFunc\<close> and of re-slicing them from the front, whose capacity is
  their length, so that a bound above the length panics.
\<close>

definition index_at :: "'a list \<Rightarrow> int \<Rightarrow> 'a result" where
  "index_at xs i =
     (if 0 \<le> i \<and> i < int (length xs) then Value (xs ! nat i) else Crash ''index out of range'')"

definition slice_from :: "'a list \<Rightarrow> int \<Rightarrow> 'a list result" where
  "slice_from xs i =
     (if 0 \<le> i \<and> i \<le> int (length xs) then Value (drop (nat i) xs)
      else Crash ''slice bounds out of range'')"

definition slice_to :: "'a list \<Rightarrow> int \<Rightarrow> 'a list result" where
  "slice_to xs i =
     (if 0 \<le> i \<and> i \<le> int (length xs) then Value (take (nat i) xs)
      else Crash ''slice bounds out of range'')"

section \<open>Predicates used in the statements and proofs\<close>



section \<open>Tags and tagged values (proc/response.go)\<close>

text \<open>The types \<^verbatim>\<open>tag\<close> and \<^verbatim>\<open>statusTag\<close> are string types.\<close>

type_synonym tag = string
type_synonym statusTag = string

definition TagOutput :: tag where "TagOutput = ''OUT''"
definition TagList :: tag where "TagList = ''LST''"
definition TagSignature :: tag where "TagSignature = ''SIG''"
definition TagErrorSyntax :: tag where "TagErrorSyntax = ''ENE''"
definition TagErrorInternal :: tag where "TagErrorInternal = ''EI''"
definition TagErrorUser :: tag where "TagErrorUser = ''EU''"
definition TagErrorRuntime :: tag where "TagErrorRuntime = ''ER''"
definition TagTraceback :: tag where "TagTraceback = ''TB''"
definition TagErrorHistoryPosition :: tag where "TagErrorHistoryPosition = ''POS''"
definition TagErrorPosition :: tag where "TagErrorPosition = ''EPO''"
definition TagReadPrompt :: tag where "TagReadPrompt = ''RD_PR''"
definition TagReadInput :: tag where "TagReadInput = ''RD_IN''"
definition TagReadIntPrompt :: tag where "TagReadIntPrompt = ''RDI_PR''"
definition TagReadIntInput :: tag where "TagReadIntInput = ''RDI_IN''"
definition TagReadIntError :: tag where "TagReadIntError = ''RDI_ER''"

definition TagReady :: statusTag where "TagReady = ''RDY''"
definition TagInputReceived :: statusTag where "TagInputReceived = ''IR''"
definition TagRun :: statusTag where "TagRun = ''RUN''"
definition TagErrorParse :: statusTag where "TagErrorParse = ''ERP''"
definition TagInterrupt :: statusTag where "TagInterrupt = ''INT''"
definition TagQuit :: statusTag where "TagQuit = ''QUIT''"
definition TagReset :: statusTag where "TagReset = ''RES''"
definition TagDebugReady :: statusTag where "TagDebugReady = ''DRDY''"

lemmas tag_defs =
  TagOutput_def TagList_def TagSignature_def TagErrorSyntax_def TagErrorInternal_def
  TagErrorUser_def TagErrorRuntime_def TagTraceback_def TagErrorHistoryPosition_def
  TagErrorPosition_def TagReadPrompt_def TagReadInput_def TagReadIntPrompt_def
  TagReadIntInput_def TagReadIntError_def TagReady_def TagInputReceived_def TagRun_def
  TagErrorParse_def TagInterrupt_def TagQuit_def TagReset_def TagDebugReady_def

text \<open>
  Channels are identified by a number; the three kinds of channel that the response
  handler touches have different element types in the source and therefore never alias.
\<close>

datatype rchan = RChan nat   \<comment> \<open>\<^verbatim>\<open>chan Tagged\<close>: the channel of one Response\<close>
datatype ochan = OChan nat   \<comment> \<open>\<^verbatim>\<open>chan Response\<close>: the channel of one Output\<close>
datatype achan = AChan nat   \<comment> \<open>reply, error and acknowledgment channels\<close>

record Ready =
  Ident :: bool
  Frame :: bool
  Verbose :: bool
  Set_changed :: bool
  Types :: int

record Line =
  line_tag :: tag
  Continuation :: bool
  Indent :: int
  Data :: string

record Position =
  Row :: int
  Column :: int

record ReadRequest =
  rr_tag :: tag
  Prompt :: string
  rr_Output :: achan
  rr_Err :: achan

text \<open>
  The interface \<^verbatim>\<open>Tagged\<close> is implemented by \<^verbatim>\<open>tag\<close> itself, \<^verbatim>\<open>*Status\<close>,
  \<^verbatim>\<open>*Ready\<close>, \<^verbatim>\<open>*Line\<close> and \<^verbatim>\<open>*ReadRequest\<close> (both embed a \<^verbatim>\<open>tag\<close>) and
  \<^verbatim>\<open>*Position\<close>.
\<close>

datatype Tagged =
    TagV tag
  | StatusV statusTag
  | ReadyV Ready
  | LineV Line
  | PositionV Position
  | ReadRequestV ReadRequest

fun Tag :: "Tagged \<Rightarrow> tag" where
  "Tag (TagV t) = t"
| "Tag (StatusV s) = s"
| "Tag (ReadyV r) = TagReady"
| "Tag (LineV l) = line_tag l"
| "Tag (PositionV p) = TagErrorHistoryPosition"
| "Tag (ReadRequestV q) = rr_tag q"

definition IsError :: "Tagged \<Rightarrow> bool" where
  "IsError t =
     (let g = Tag t in
      if g = TagErrorSyntax \<or> g = TagTraceback \<or> g = TagErrorHistoryPosition \<or>
         g = TagErrorPosition \<or> g = TagErrorInternal \<or> g = TagErrorRuntime \<or>
         g = TagErrorUser \<or> g = TagReadIntError
      then True else False)"

section \<open>Outputs, responses and the response handler (proc/response.go)\<close>

record Seed =
  Seed_value :: int   \<comment> \<open>\<^verbatim>\<open>Seed uint\<close>\<close>
  Step :: int         \<comment> \<open>\<^verbatim>\<open>Step uint64\<close>\<close>

record chunk =
  chunk_start :: Position
  chunk_end :: Position

definition zero_Position :: Position where
  "zero_Position = \<lparr>Row = 0, Column = 0\<rparr>"

definition zero_chunk :: chunk where
  "zero_chunk = \<lparr>chunk_start = zero_Position, chunk_end = zero_Position\<rparr>"

record Output =
  cmd :: string
  out_ch :: ochan

record response =
  resp_cmd :: string
  resp_ch :: rchan

text \<open>
  The implementations of the interface \<^verbatim>\<open>responser\<close>: a plain \<^verbatim>\<open>*response\<close> (the
  startup response), \<^verbatim>\<open>Run\<close>, \<^verbatim>\<open>ParseError\<close> and \<^verbatim>\<open>*InternalError\<close>.
\<close>

datatype responser =
    PlainResponse response
  | Run response "Seed option"
  | ParseError response
  | InternalError response

fun responser_ch :: "responser \<Rightarrow> rchan" where
  "responser_ch (PlainResponse s) = resp_ch s"
| "responser_ch (Run s sd) = resp_ch s"
| "responser_ch (ParseError s) = resp_ch s"
| "responser_ch (InternalError s) = resp_ch s"

text \<open>
  The handler is only touched by the decoder goroutine, which is the sole writer of
  every channel below.  Each channel operation of that goroutine is recorded, in program
  order, as an event; an unbuffered send is recorded when it is issued.
\<close>

datatype event =
    EvOpen rchan                 \<comment> \<open>\<^verbatim>\<open>h.c = r\<close>: the Response becomes current\<close>
  | EvCloseResponse rchan        \<comment> \<open>\<^verbatim>\<open>close(s.ch)\<close>\<close>
  | EvSend rchan Tagged          \<comment> \<open>\<^verbatim>\<open>s.ch <- t\<close>\<close>
  | EvPublish ochan responser    \<comment> \<open>\<^verbatim>\<open>h.r.ch <- h.c\<close>\<close>
  | EvCloseOutput ochan          \<comment> \<open>\<^verbatim>\<open>close(o.ch)\<close>\<close>
  | EvStatus Tagged              \<comment> \<open>\<^verbatim>\<open>p.status <- x\<close>\<close>
  | EvResponse Output            \<comment> \<open>\<^verbatim>\<open>p.response <- r\<close>\<close>
  | EvReadyOffer nat             \<comment> \<open>\<^verbatim>\<open>p.ready <- rch\<close>\<close>
  | EvCloseHandshake nat         \<comment> \<open>\<^verbatim>\<open>close(rch)\<close>\<close>
  | EvCloseAck achan             \<comment> \<open>\<^verbatim>\<open>close(qch)\<close>, \<^verbatim>\<open>close(ich)\<close>\<close>
  | EvWrite string               \<comment> \<open>\<^verbatim>\<open>w.Write(...)\<close> on the child's stdin\<close>

text \<open>
  The state of the decoder goroutine: the two fields of its \<^verbatim>\<open>rhandler\<close>, its local
  variable \<^verbatim>\<open>rch\<close>, and what it knows of the channels: which ones have been closed,
  the next unused channel number, and the events so far.
\<close>

record world =
  h_r :: "Output option"
  h_c :: "responser option"
  rch :: "nat option"
  closed_r :: "rchan set"
  closed_o :: "ochan set"
  fresh :: nat
  trace :: "event list"

definition new_world :: world where
  "new_world = \<lparr>h_r = None, h_c = None, rch = None, closed_r = {}, closed_o = {},
                  fresh = 0, trace = []\<rparr>"

text \<open>A call either returns or panics; a panic keeps the state reached when it happened.\<close>

datatype 'a outcome = Ok 'a | Panic string world

fun obind :: "'a outcome \<Rightarrow> ('a \<Rightarrow> 'b outcome) \<Rightarrow> 'b outcome" where
  "obind (Ok x) f = f x"
| "obind (Panic m w) f = Panic m w"

fun final :: "world outcome \<Rightarrow> world" where
  "final (Ok w) = w"
| "final (Panic m w) = w"

definition emit :: "event \<Rightarrow> world \<Rightarrow> world" where
  "emit e w = w\<lparr>trace := trace w @ [e]\<rparr>"

text \<open>Closing a closed channel and sending on a closed channel panic in Go.\<close>

definition close_response :: "responser \<Rightarrow> world \<Rightarrow> world outcome" where
  "close_response s w =
     (if responser_ch s \<in> closed_r w then Panic ''close of closed channel'' w
      else Ok (emit (EvCloseResponse (responser_ch s))
                 (w\<lparr>closed_r := insert (responser_ch s) (closed_r w)\<rparr>)))"

definition close_output :: "Output \<Rightarrow> world \<Rightarrow> world outcome" where
  "close_output e w =
     (if out_ch e \<in> closed_o w then Panic ''close of closed channel'' w
      else Ok (emit (EvCloseOutput (out_ch e)) (w\<lparr>closed_o := insert (out_ch e) (closed_o w)\<rparr>)))"

definition response_send :: "responser \<Rightarrow> Tagged \<Rightarrow> world \<Rightarrow> world outcome" where
  "response_send s t w =
     (if responser_ch s \<in> closed_r w then Panic ''send on closed channel'' w
      else Ok (emit (EvSend (responser_ch s) t) w))"

definition make_rchan :: "world \<Rightarrow> rchan \<times> world" where
  "make_rchan w = (RChan (fresh w), w\<lparr>fresh := Suc (fresh w)\<rparr>)"

definition ready :: "world \<Rightarrow> (bool \<times> world) outcome" where
  "ready w =
     obind (case h_c w of
              None \<Rightarrow> Ok w
            | Some s \<Rightarrow> obind (close_response s w) (\<lambda>w1. Ok (w1\<lparr>h_c := None\<rparr>)))
       (\<lambda>w1. case h_r w1 of
                None \<Rightarrow> Ok (False, w1)
              | Some e \<Rightarrow> obind (close_output e w1) (\<lambda>w2. Ok (True, w2\<lparr>h_r := None\<rparr>)))"

definition init :: "Output \<Rightarrow> world \<Rightarrow> world outcome" where
  "init e w =
     (if h_r w \<noteq> None then Panic ''should not have r set here'' w
      else Ok (w\<lparr>h_r := Some e\<rparr>))"

definition newResponse :: "chunk \<Rightarrow> responser \<Rightarrow> world \<Rightarrow> world outcome" where
  "newResponse chk r w =
     obind (case h_c w of None \<Rightarrow> Ok w | Some s \<Rightarrow> close_response s w)
       (\<lambda>w1. let w2 = emit (EvOpen (responser_ch r)) (w1\<lparr>h_c := Some r\<rparr>) in
              case h_r w2 of
                None \<Rightarrow> Panic ''nil pointer dereference'' w2
              | Some e \<Rightarrow>
                  if out_ch e \<in> closed_o w2 then Panic ''send on closed channel'' w2
                  else Ok (emit (EvPublish (out_ch e) r) w2))"

definition start :: "world \<Rightarrow> world outcome" where
  "start w =
     (let (ch, w1) = make_rchan w
      in newResponse zero_chunk (PlainResponse \<lparr>resp_cmd = [], resp_ch = ch\<rparr>) w1)"

definition run :: "chunk \<Rightarrow> Seed option \<Rightarrow> world \<Rightarrow> world outcome" where
  "run chk s w =
     (let (ch, w1) = make_rchan w
      in newResponse chk (Run \<lparr>resp_cmd = [], resp_ch = ch\<rparr> s) w1)"

definition parseError :: "chunk \<Rightarrow> world \<Rightarrow> world outcome" where
  "parseError chk w =
     (let (ch, w1) = make_rchan w
      in newResponse chk (ParseError \<lparr>resp_cmd = [], resp_ch = ch\<rparr>) w1)"

definition newInternalError :: "world \<Rightarrow> responser \<times> world" where
  "newInternalError w =
     (let (ch, w1) = make_rchan w in (InternalError \<lparr>resp_cmd = [], resp_ch = ch\<rparr>, w1))"

definition internalError :: "world \<Rightarrow> world outcome" where
  "internalError w =
     (if h_c w = None
      then (let (r, w1) = newInternalError w in newResponse zero_chunk r w1)
      else Ok w)"

definition close :: "world \<Rightarrow> world outcome" where
  "close w =
     obind (case h_c w of None \<Rightarrow> Ok w | Some s \<Rightarrow> close_response s w)
       (\<lambda>w1. case h_r w1 of None \<Rightarrow> Ok w1 | Some e \<Rightarrow> close_output e w1)"

definition send :: "Tagged \<Rightarrow> world \<Rightarrow> world outcome" where
  "send t w =
     (case h_c w of
        None \<Rightarrow> Panic ''no current output'' w
      | Some s \<Rightarrow> response_send s t w)"

text \<open>
  The handler operations that the decoder (\<^verbatim>\<open>parseStdoutLines\<close> and
  \<^verbatim>\<open>parseReadPrompt\<close>) performs; it never calls \<^verbatim>\<open>close\<close>.  A sequence of
  operations stops at the first panic.
\<close>

datatype hop =
    OpInit Output
  | OpStart
  | OpRun chunk "Seed option"
  | OpParseError chunk
  | OpInternalError
  | OpSend Tagged
  | OpReady

fun exec :: "hop \<Rightarrow> world \<Rightarrow> world outcome" where
  "exec (OpInit e) w = init e w"
| "exec OpStart w = start w"
| "exec (OpRun chk s) w = run chk s w"
| "exec (OpParseError chk) w = parseError chk w"
| "exec OpInternalError w = internalError w"
| "exec (OpSend t) w = send t w"
| "exec OpReady w = obind (ready w) (\<lambda>(b, w1). Ok w1)"

fun run_ops :: "hop list \<Rightarrow> world \<Rightarrow> world outcome" where
  "run_ops [] w = Ok w"
| "run_ops (x # xs) w = obind (exec x w) (run_ops xs)"

text \<open>
  A monitor over the events: it tracks the set of Responses that are open (current and
  accepting events) and the set of closed ones, and rejects a trace as soon as a second
  Response is opened while one is open, an event is sent on a Response that is not open,
  or a closed Response is opened or closed again.
\<close>

fun mstep :: "(rchan set \<times> rchan set) option \<Rightarrow> event \<Rightarrow> (rchan set \<times> rchan set) option" where
  "mstep None e = None"
| "mstep (Some (opn, cls)) (EvOpen ch) =
     (if opn = {} \<and> ch \<notin> cls then Some ({ch}, cls) else None)"
| "mstep (Some (opn, cls)) (EvSend ch t) =
     (if ch \<in> opn \<and> ch \<notin> cls then Some (opn, cls) else None)"
| "mstep (Some (opn, cls)) (EvCloseResponse ch) =
     (if ch \<notin> cls then Some (opn - {ch}, insert ch cls) else None)"
| "mstep (Some (opn, cls)) e = Some (opn, cls)"

definition monitor :: "event list \<Rightarrow> (rchan set \<times> rchan set) option" where
  "monitor tr = foldl mstep (Some ({}, {})) tr"

text \<open>
  Read off a trace: the Responses that were opened, the ones that were closed, and the
  ones that are open (accepting events) at its end.
\<close>

fun opened :: "event list \<Rightarrow> rchan list" where
  "opened [] = []"
| "opened (EvOpen ch # es) = ch # opened es"
| "opened (e # es) = opened es"

fun closed_responses :: "event list \<Rightarrow> rchan list" where
  "closed_responses [] = []"
| "closed_responses (EvCloseResponse ch # es) = ch # closed_responses es"
| "closed_responses (e # es) = closed_responses es"

definition open_responses :: "event list \<Rightarrow> rchan set" where
  "open_responses tr = set (opened tr) - set (closed_responses tr)"

text \<open>The invariant of the decoder state that ties the handler to its trace.\<close>

definition current_set :: "world \<Rightarrow> rchan set" where
  "current_set w = (case h_c w of None \<Rightarrow> {} | Some s \<Rightarrow> {responser_ch s})"

definition hinv :: "world \<Rightarrow> bool" where
  "hinv w \<longleftrightarrow>
     (\<forall>n. RChan n \<in> closed_r w \<longrightarrow> n < fresh w) \<and>
     (\<forall>s. h_c w = Some s \<longrightarrow> responser_ch s \<notin> closed_r w \<and> (\<exists>n<fresh w. responser_ch s = RChan n)) \<and>
     monitor (trace w) = Some (current_set w, closed_r w)"

text \<open>Concrete states and operation sequences used to instantiate the theorems.\<close>

definition ops_example :: "hop list" where
  "ops_example =
     [OpInit \<lparr>cmd = ''<startup>'', out_ch = OChan 0\<rparr>, OpStart, OpSend (TagV ''OUT''),
      OpRun zero_chunk None, OpSend (TagV ''OUT''), OpReady]"

definition world_open :: world where
  "world_open =
     \<lparr>h_r = Some \<lparr>cmd = ''<startup>'', out_ch = OChan 0\<rparr>,
      h_c = Some (Run \<lparr>resp_cmd = [], resp_ch = RChan 0\<rparr> None),
      rch = None, closed_r = {}, closed_o = {}, fresh = 1,
      trace = [EvOpen (RChan 0),
               EvPublish (OChan 0) (Run \<lparr>resp_cmd = [], resp_ch = RChan 0\<rparr> None)]\<rparr>"

definition world_idle :: world where
  "world_idle = new_world\<lparr>h_r := Some \<lparr>cmd = ''<startup>'', out_ch = OChan 0\<rparr>\<rparr>"

section \<open>Chunks, the tag framer and the field parsers\<close>

text \<open>
  \<^verbatim>\<open>chunk.get\<close> (proc/response.go).  Rows and columns are Go \<^verbatim>\<open>int\<close>s: a negative row
  passes the range check and panics at the index.
\<close>

definition chunk_get :: "chunk \<Rightarrow> string \<Rightarrow> string result" where
  "chunk_get c input =
     (let lines = Split input [CHR 0x0A] in
      if Row (chunk_start c) \<ge> int (length lines) \<or> Row (chunk_end c) \<ge> int (length lines)
      then Value ''Invalid chunk''
      else
        rbind (index_at lines (Row (chunk_start c))) (\<lambda>l0.
        rbind (slice_from l0 (Column (chunk_start c))) (\<lambda>cmd0.
        let cmd1 = foldl (\<lambda>cmd i. cmd @ [CHR 0x0A] @ lines ! nat i) cmd0
                     [Row (chunk_start c) + 1 .. Row (chunk_end c) - 1]
        in rbind (index_at lines (Row (chunk_end c))) (\<lambda>l1.
           rbind (slice_to l1 (Column (chunk_end c))) (\<lambda>e. Value (cmd1 @ e))))))"

definition commandResponse :: "Output \<Rightarrow> chunk \<Rightarrow> string result" where
  "commandResponse e chk = chunk_get chk (cmd e)"

text \<open>
  \<^verbatim>\<open>parseTagLine\<close>.  \<^verbatim>\<open>bytes.TrimSpace\<close> returns \<^verbatim>\<open>nil\<close> when nothing is left, and
  the decoder tests \<^verbatim>\<open>tagName != nil\<close>: the tag name is an option.
\<close>

definition newTagChar :: char where
  "newTagChar = CHR 0x81"

definition runCommandChar :: char where
  "runCommandChar = CHR 0x04"

definition nil_if_empty :: "string \<Rightarrow> string option" where
  "nil_if_empty s = (if s = [] then None else Some s)"

definition parseTagLine :: "string \<Rightarrow> string option \<times> string list \<times> string" where
  "parseTagLine line =
     (if length line > 1 \<and> line ! 0 = newTagChar
      then (let lineSplit = SplitN (drop 1 line) [newTagChar] 2;
                fields = Fields (lineSplit ! 0)
            in if length fields > 0
               then (nil_if_empty (TrimSpace (fields ! 0)),
                     (if length fields > 1 then drop 1 fields else []),
                     (if length lineSplit = 2 then TrimSpace (lineSplit ! 1) else []))
               else (None, [], []))
      else (None, [], []))"

text \<open>
  \<^verbatim>\<open>parseHistoryPosition\<close> and \<^verbatim>\<open>parseResponse\<close>.  In \<^verbatim>\<open>parseResponse\<close> the error
  set for a wrong number of fields is not returned; it is overwritten by the next
  assignment to \<^verbatim>\<open>err\<close>.
\<close>

definition parseHistoryPosition :: "string list \<Rightarrow> Position result" where
  "parseHistoryPosition tagFields =
     (if length tagFields \<noteq> 2 then Error (ErrorNew ''position output not of required form'')
      else rbind (Atoi (tagFields ! 0)) (\<lambda>row.
           rbind (Atoi (tagFields ! 1)) (\<lambda>col. Value \<lparr>Row = row, Column = col\<rparr>)))"

definition parseResponse :: "string list \<Rightarrow> chunk result" where
  "parseResponse tagFields =
     (let err = (if length tagFields \<noteq> 4
                 then Some (ErrorNew ''response output not of required form'') else None)
      in rbind (slice_to tagFields 2) (\<lambda>a.
         rbind (parseHistoryPosition a) (\<lambda>st.
         rbind (slice_from tagFields 2) (\<lambda>b.
         rbind (parseHistoryPosition b) (\<lambda>en.
         Value \<lparr>chunk_start = st, chunk_end = en\<rparr>)))))"

section \<open>The line consumer and the state-machine parsers (proc/parse)\<close>

text \<open>
  The line consumer reads from a channel of strings.  The channel is modelled by the
  list of the strings that are sent on it before it is closed.
\<close>

record lineConsumer =
  source :: "string list"
  line :: string
  processed :: bool

definition newLineConsumer :: "string list \<Rightarrow> lineConsumer" where
  "newLineConsumer src = \<lparr>source = src, line = [], processed = True\<rparr>"

definition fetchNextLine :: "'a lineConsumer_scheme \<Rightarrow> bool \<times> 'a lineConsumer_scheme" where
  "fetchNextLine p =
     (if processed p
      then (case source p of
              [] \<Rightarrow> (False, p)
            | x # xs \<Rightarrow> (True, p\<lparr>source := xs, line := TrimSpace x, processed := False\<rparr>))
      else (True, p))"

definition consumeLine :: "'a lineConsumer_scheme \<Rightarrow> 'a lineConsumer_scheme" where
  "consumeLine p = p\<lparr>processed := True\<rparr>"

text \<open>The number of lines that have not been consumed yet: the measure of every loop below.\<close>

definition pending :: "'a lineConsumer_scheme \<Rightarrow> nat" where
  "pending p = length (source p) + (if processed p then 0 else 1)"

text \<open>
  A state function returns the next state function (\<^verbatim>\<open>nil\<close> is \<open>None\<close>) or panics.
  A parser sends its records and errors on an unbuffered output channel and closes it at
  the end of \<^verbatim>\<open>run\<close>; the channel is modelled by the list of values sent, and a panic
  of the parser goroutine leaves it unclosed.
\<close>

datatype ('s, 'p) step = Step "'s option" 'p | Abort string 'p

datatype 'o stream = Closed "'o list" | Crashed string "'o list"

definition leftParam :: string where "leftParam = ''(''"
definition rightParam :: string where "rightParam = '')''"
definition leftOptionalParam :: string where "leftOptionalParam = ''[''"
definition rightOptionalParam :: string where "rightOptionalParam = '']''"

text \<open>The helpers of proc/parse that extract rows and columns.\<close>

definition matchCommaRune :: "rune \<Rightarrow> bool" where
  "matchCommaRune r \<longleftrightarrow> r = 0x2C"

definition extractRowColumnFromFieldsSplit :: "string list \<Rightarrow> (int \<times> int) result" where
  "extractRowColumnFromFieldsSplit flds =
     (if length flds \<noteq> 2
      then Error (ErrorNew ''expect 2 elements in expansion of line/column location data'')
      else let lineSplit = Fields (flds ! 0) in
        rbind (index_at lineSplit (int (length lineSplit) - 1)) (\<lambda>f.
        rbind (Atoi f) (\<lambda>row.
        rbind (index_at (Fields (flds ! 1)) 1) (\<lambda>g.
        rbind (Atoi g) (\<lambda>col. Value (row, col))))))"

definition extractRowColumnFromString :: "string \<Rightarrow> (int \<times> int) result" where
  "extractRowColumnFromString input =
     extractRowColumnFromFieldsSplit (FieldsFunc input matchCommaRune)"

subsection \<open>The Traceback parser (proc/parse/tb.go)\<close>

record ParamValue =
  pv_Name :: string
  pv_Value :: string

record Location =
  loc_File :: string
  loc_Row :: int
  loc_Glue :: string

record Traceback =
  tb_Index :: int
  tb_Current :: bool
  tb_Name :: string
  tb_Params :: "ParamValue list"
  tb_Location :: Location

definition NoIndex :: int where "NoIndex = - 1"

definition zero_Location :: Location where
  "zero_Location = \<lparr>loc_File = [], loc_Row = 0, loc_Glue = []\<rparr>"

definition zero_Traceback :: Traceback where
  "zero_Traceback = \<lparr>tb_Index = 0, tb_Current = False, tb_Name = [], tb_Params = [],
                      tb_Location = zero_Location\<rparr>"

datatype tb_item = TracebackItem Traceback | TracebackErr error

record TracebackParser = lineConsumer +
  tb_err :: "error option"
  tb_current :: Traceback
  tb_output :: "tb_item list"

datatype tracebackParserStateFn =
    ParseTraceback | ParseTracebackParam | ParseTracebackLocation | ParseTracebackError

lemma pending_fetch:
  "fetchNextLine p = (b, p1) \<Longrightarrow> pending p1 = pending p \<and> (b \<longrightarrow> \<not> processed p1)"
  by (auto simp add: fetchNextLine_def pending_def split: if_splits list.splits)

lemma pending_consume: "\<not> processed p \<Longrightarrow> pending (consumeLine p) < pending p"
  by (simp add: consumeLine_def pending_def)

lemma pending_fetch_consume:
  "(True, p1) = fetchNextLine p \<Longrightarrow> pending (consumeLine p1) < pending p"
  using pending_fetch [of p True p1] pending_consume [of p1] by simp

text \<open>
  In \<^verbatim>\<open>parseTraceback\<close>, when a header that starts with \<^verbatim>\<open>#\<close> does not split into two
  fields, the source calls \<^verbatim>\<open>fmt.Errorf\<close> and drops its result: \<^verbatim>\<open>p.err\<close> is left as
  it was.
\<close>

function parseTraceback ::
  "TracebackParser \<Rightarrow> (tracebackParserStateFn, TracebackParser) step" where
  "parseTraceback p =
     (case fetchNextLine p of
        (False, p1) \<Rightarrow> Step None p1
      | (True, p1) \<Rightarrow>
          (let name = TrimSuffix (line p1) leftParam in
           if length name < length (line p1)
           then (let p2 = p1\<lparr>tb_current := zero_Traceback\<lparr>tb_Name := name, tb_Index := NoIndex\<rparr>\<rparr>;
                     levelName = TrimPrefix name ''#''
                 in if length levelName < length name
                    then (let levelNameFields = Fields levelName in
                          if length levelNameFields \<noteq> 2
                          then Step (Some ParseTracebackError) p2
                          else (case Atoi (levelNameFields ! 0) of
                                  Error e \<Rightarrow> Step (Some ParseTracebackError) (p2\<lparr>tb_err := Some e\<rparr>)
                                | Crash m \<Rightarrow> Abort m p2
                                | Value index \<Rightarrow>
                                    (let nameWithoutMarker = TrimPrefix (levelNameFields ! 1) ''*'';
                                         p3 = p2\<lparr>tb_current := (tb_current p2)
                                                 \<lparr>tb_Index := index, tb_Name := nameWithoutMarker\<rparr>\<rparr>;
                                         p4 = (if length nameWithoutMarker < length (levelNameFields ! 1)
                                               then p3\<lparr>tb_current := (tb_current p3)\<lparr>tb_Current := True\<rparr>\<rparr>
                                               else p3)
                                     in Step (Some ParseTracebackParam) (consumeLine p4))))
                    else Step (Some ParseTracebackParam) (consumeLine p2))
           else parseTraceback (consumeLine p1)))"
  by pat_completeness auto
termination
  by (relation "measure pending") (auto intro: pending_fetch_consume)

declare parseTraceback.simps [simp del]


lemma pending_fetch_consume_current:
  "(True, p1) = fetchNextLine p \<Longrightarrow> pending (consumeLine (p1\<lparr>tb_current := c\<rparr>)) < pending p"
  using pending_fetch_consume [of p1 p] by (simp add: pending_def consumeLine_def)

function parseTracebackParam ::
  "TracebackParser \<Rightarrow> (tracebackParserStateFn, TracebackParser) step" where
  "parseTracebackParam p =
     (case fetchNextLine p of
        (False, p1) \<Rightarrow> Abort ''should not get here'' p1
      | (True, p1) \<Rightarrow>
          if HasPrefix (line p1) rightParam then Step (Some ParseTracebackLocation) p1
          else (let flds = SplitN (line p1) '': '' 2 in
                if length flds \<noteq> 2
                then Step (Some ParseTracebackError)
                       (p1\<lparr>tb_err := Some (Errorf ''expected a split of 2, got %v'' flds)\<rparr>)
                else (let flds = flds[1 := TrimSuffix (flds ! 1) '',''];
                          p2 = p1\<lparr>tb_current := (tb_current p1)
                                  \<lparr>tb_Params := tb_Params (tb_current p1)
                                       @ [\<lparr>pv_Name = flds ! 0, pv_Value = flds ! 1\<rparr>]\<rparr>\<rparr>
                      in parseTracebackParam (consumeLine p2))))"
  by pat_completeness auto
termination
  by (relation "measure pending") (auto intro: pending_fetch_consume_current)

declare parseTracebackParam.simps [simp del]

definition emit_tb :: "TracebackParser \<Rightarrow> TracebackParser" where
  "emit_tb p = p\<lparr>tb_output := tb_output p @ [TracebackItem (tb_current p)]\<rparr>"

function parseTracebackLocation ::
  "TracebackParser \<Rightarrow> (tracebackParserStateFn, TracebackParser) step" where
  "parseTracebackLocation p =
     (case fetchNextLine p of
        (False, p1) \<Rightarrow> Abort ''should not get here'' p1
      | (True, p1) \<Rightarrow>
          if HasPrefix (line p1) rightParam
          then (let p2 = consumeLine p1;
                    locationLine = SplitN (line p2) '' at '' 2
                in if length locationLine = 2
                   then (let index = LastIndex (locationLine ! 1) '':'' in
                         if index = - 1
                         then Step (Some ParseTracebackError)
                                (p2\<lparr>tb_err := Some (Errorf
                                   (''expected ':', but did not find one in '%v'' @ [CHR 0x27])
                                   [locationLine ! 1])\<rparr>)
                         else (case Atoi (drop (nat (index + 1)) (locationLine ! 1)) of
                                 Error e \<Rightarrow> Step (Some ParseTracebackError) (p2\<lparr>tb_err := Some e\<rparr>)
                               | Crash m \<Rightarrow> Abort m p2
                               | Value row \<Rightarrow>
                                   Step (Some ParseTraceback)
                                     (emit_tb (p2\<lparr>tb_current := (tb_current p2)
                                        \<lparr>tb_Location := \<lparr>loc_File = take (nat index) (locationLine ! 1),
                                                         loc_Row = row, loc_Glue = []\<rparr>\<rparr>\<rparr>))))
                   else Step (Some ParseTraceback) (emit_tb p2))
          else parseTracebackLocation (consumeLine p1))"
  by pat_completeness auto
termination
  by (relation "measure pending") (auto intro: pending_fetch_consume)

declare parseTracebackLocation.simps [simp del]

definition parseTracebackError ::
  "TracebackParser \<Rightarrow> (tracebackParserStateFn, TracebackParser) step" where
  "parseTracebackError p =
     (case tb_err p of
        None \<Rightarrow> Abort ''parser error triggered but error value not set'' p
      | Some e \<Rightarrow> Step None (p\<lparr>tb_output := tb_output p @ [TracebackErr e]\<rparr>))"

fun tb_state ::
  "tracebackParserStateFn \<Rightarrow> TracebackParser \<Rightarrow> (tracebackParserStateFn, TracebackParser) step" where
  "tb_state ParseTraceback p = parseTraceback p"
| "tb_state ParseTracebackParam p = parseTracebackParam p"
| "tb_state ParseTracebackLocation p = parseTracebackLocation p"
| "tb_state ParseTracebackError p = parseTracebackError p"


text \<open>
  \<^verbatim>\<open>TracebackParser.run\<close> calls the state functions until one returns \<^verbatim>\<open>nil\<close>.  The
  loop terminates because every cycle through the states consumes a line.
\<close>

fun tb_rank :: "tracebackParserStateFn \<Rightarrow> nat" where
  "tb_rank ParseTracebackError = 0"
| "tb_rank ParseTracebackLocation = 1"
| "tb_rank ParseTracebackParam = 2"
| "tb_rank ParseTraceback = 2"

fun tb_measure :: "tracebackParserStateFn option \<times> TracebackParser \<Rightarrow> nat" where
  "tb_measure (None, p) = 0"
| "tb_measure (Some s, p) = 3 * pending p + tb_rank s + 1"

lemma parseTraceback_pending:
  "parseTraceback p = Step st' p' \<Longrightarrow>
     pending p' \<le> pending p \<and> (st' = Some ParseTracebackParam \<longrightarrow> pending p' < pending p)
     \<and> st' \<noteq> Some ParseTraceback \<and> st' \<noteq> Some ParseTracebackLocation"
proof (induction p rule: parseTraceback.induct)
  case (1 p)
  obtain b p1 where f: "fetchNextLine p = (b, p1)" by (cases "fetchNextLine p")
  note pf = pending_fetch [OF f]
  show ?case
  proof (cases b)
    case False
    then show ?thesis using "1.prems" f pf
      by (subst (asm) parseTraceback.simps) auto
  next
    case True
    show ?thesis
    proof (cases "length (TrimSuffix (line p1) leftParam) < length (line p1)")
      case hdr: True
      have c: "pending (consumeLine (q :: TracebackParser)) < pending p"
        if "pending q = pending p1" "\<not> processed q" for q
        using that pf True pending_consume [of q] by simp
      show ?thesis
        using "1.prems" f True hdr pf
        apply (subst (asm) parseTraceback.simps)
        apply (auto simp add: Let_def pending_def consumeLine_def split: if_splits result.splits)
        done
    next
      case nohdr: False
      have rec: "parseTraceback (consumeLine p1) = Step st' p'"
        using "1.prems" f True nohdr
        by (subst (asm) parseTraceback.simps) (simp add: Let_def)
      have "pending (consumeLine p1) < pending p"
        using pending_fetch_consume [of p1 p] f True by simp
      then show ?thesis
        using "1.IH" [OF f [symmetric] _ refl _ rec] True nohdr by auto
    qed
  qed
qed

lemma parseTracebackParam_pending:
  "parseTracebackParam p = Step st' p' \<Longrightarrow>
     pending p' \<le> pending p \<and> (st' = Some ParseTracebackLocation \<or> st' = Some ParseTracebackError)"
proof (induction p rule: parseTracebackParam.induct)
  case (1 p)
  obtain b p1 where f: "fetchNextLine p = (b, p1)" by (cases "fetchNextLine p")
  note pf = pending_fetch [OF f]
  show ?case
  proof (cases "b \<and> \<not> HasPrefix (line p1) rightParam \<and> length (SplitN (line p1) '': '' 2) = 2")
    case False
    then show ?thesis using "1.prems" f pf
      by (subst (asm) parseTracebackParam.simps)
         (auto simp add: Let_def pending_def split: if_splits bool.splits)
  next
    case True
    let ?flds = "(SplitN (line p1) '': '' 2)[1 := TrimSuffix (SplitN (line p1) '': '' 2 ! 1) '','']"
    let ?p2 = "p1\<lparr>tb_current := (tb_current p1)
                 \<lparr>tb_Params := tb_Params (tb_current p1)
                    @ [\<lparr>pv_Name = ?flds ! 0, pv_Value = ?flds ! 1\<rparr>]\<rparr>\<rparr>"
    have rec: "parseTracebackParam (consumeLine ?p2) = Step st' p'"
      using "1.prems" f True
      by (subst (asm) parseTracebackParam.simps) (simp add: Let_def)
    have "pending (consumeLine ?p2) < pending p"
      using pending_fetch_consume_current [of p1 p] f True by simp
    then show ?thesis
      using "1.IH" [OF f [symmetric] _ _ refl _ refl refl rec] True by auto
  qed
qed

lemma parseTracebackLocation_pending:
  "parseTracebackLocation p = Step st' p' \<Longrightarrow>
     pending p' \<le> pending p \<and> (st' = Some ParseTraceback \<longrightarrow> pending p' < pending p)
     \<and> (st' = Some ParseTraceback \<or> st' = Some ParseTracebackError)"
proof (induction p rule: parseTracebackLocation.induct)
  case (1 p)
  obtain b p1 where f: "fetchNextLine p = (b, p1)" by (cases "fetchNextLine p")
  note pf = pending_fetch [OF f]
  show ?case
  proof (cases "b \<and> \<not> HasPrefix (line p1) rightParam")
    case False
    then show ?thesis using "1.prems" f pf
      apply (subst (asm) parseTracebackLocation.simps)
      apply (auto simp add: Let_def pending_def consumeLine_def emit_tb_def
          split: if_splits result.splits bool.splits)
      done
  next
    case True
    have rec: "parseTracebackLocation (consumeLine p1) = Step st' p'"
      using "1.prems" f True
      by (subst (asm) parseTracebackLocation.simps) (simp add: Let_def)
    have "pending (consumeLine p1) < pending p"
      using pending_fetch_consume [of p1 p] f True by simp
    then show ?thesis
      using "1.IH" [OF f [symmetric] _ _ rec] True by auto
  qed
qed

lemma tb_state_measure:
  "tb_state s p = Step st' p' \<Longrightarrow> tb_measure (st', p') < tb_measure (Some s, p)"
proof (cases s)
  case ParseTraceback
  assume "tb_state s p = Step st' p'"
  with ParseTraceback show ?thesis
    using parseTraceback_pending [of p st' p']
    by (cases st'; cases "the st'") auto
next
  case ParseTracebackParam
  assume "tb_state s p = Step st' p'"
  with ParseTracebackParam show ?thesis
    using parseTracebackParam_pending [of p st' p'] by auto
next
  case ParseTracebackLocation
  assume "tb_state s p = Step st' p'"
  with ParseTracebackLocation show ?thesis
    using parseTracebackLocation_pending [of p st' p'] by auto
next
  case ParseTracebackError
  assume "tb_state s p = Step st' p'"
  with ParseTracebackError show ?thesis
    by (auto simp add: parseTracebackError_def split: option.splits)
qed

function tb_loop :: "tracebackParserStateFn option \<Rightarrow> TracebackParser \<Rightarrow> tb_item stream" where
  "tb_loop None p = Closed (tb_output p)"
| "tb_loop (Some s) p =
     (case tb_state s p of
        Step st' p' \<Rightarrow> tb_loop st' p'
      | Abort m p' \<Rightarrow> Crashed m (tb_output p'))"
  by pat_completeness auto
termination
proof (relation "measure tb_measure")
  fix s p x11 x12
  assume "tb_state s p = Step x11 x12"
  then show "((x11, x12), (Some s, p)) \<in> measure tb_measure"
    using tb_state_measure [of s p x11 x12] by simp
qed simp

definition TracebackParser_run :: "TracebackParser \<Rightarrow> tb_item stream" where
  "TracebackParser_run p = tb_loop (Some ParseTraceback) p"

text \<open>
  \<^verbatim>\<open>&TracebackParser{}\<close>, and \<^verbatim>\<open>start\<close>, which installs the line consumer, a new
  current record and a new output channel, but leaves \<^verbatim>\<open>err\<close> as it is.
\<close>

definition new_TracebackParser :: TracebackParser where
  "new_TracebackParser =
     \<lparr>source = [], line = [], processed = False,
      tb_err = None, tb_current = zero_Traceback, tb_output = []\<rparr>"

definition TracebackParser_start :: "TracebackParser \<Rightarrow> lineConsumer \<Rightarrow> tb_item stream" where
  "TracebackParser_start p consumer =
     TracebackParser_run
       (p\<lparr>source := source consumer, line := line consumer, processed := processed consumer,
          tb_current := zero_Traceback, tb_output := []\<rparr>)"

subsection \<open>The ErrorPosition parser (proc/parse/epo.go)\<close>

definition slice_range :: "'a list \<Rightarrow> int \<Rightarrow> int \<Rightarrow> 'a list result" where
  "slice_range xs lo hi =
     (if 0 \<le> lo \<and> lo \<le> hi \<and> hi \<le> int (length xs)
      then Value (take (nat (hi - lo)) (drop (nat lo) xs))
      else Crash ''slice bounds out of range'')"

definition extractFileRowColumn :: "string \<Rightarrow> (string \<times> int \<times> int) result" where
  "extractFileRowColumn input =
     (let commaSplit = FieldsFunc input matchCommaRune;
          err = (if length commaSplit < 3
                 then Some (ErrorNew ''expected at least 3 (file, line, column) in comma split'')
                 else None)
      in rbind (index_at commaSplit 0) (\<lambda>file.
         rbind (slice_range commaSplit (int (length commaSplit) - 2) (int (length commaSplit))) (\<lambda>fs.
         rbind (extractRowColumnFromFieldsSplit fs) (\<lambda>(row, col). Value (file, row, col)))))"

text \<open>
  \<^verbatim>\<open>ErrorPosition\<close> values are reached through pointers, and the parser writes through
  \<^verbatim>\<open>p.current\<close> and \<^verbatim>\<open>p.currentSub\<close> after linking them.  The model keeps a heap:
  the list of the allocated records, a pointer being an index into it;
  \<^verbatim>\<open>&ErrorPosition{...}\<close> appends a record.
\<close>

record ErrorPosition =
  ep_File :: string
  ep_Eval :: bool
  ep_Row :: int
  ep_Column :: int
  ep_SourceFragment :: string
  ep_LocatedIn :: "nat option"

definition zero_ErrorPosition :: ErrorPosition where
  "zero_ErrorPosition =
     \<lparr>ep_File = [], ep_Eval = False, ep_Row = 0, ep_Column = 0, ep_SourceFragment = [],
      ep_LocatedIn = None\<rparr>"

datatype ep_item = ErrorPositionItem nat | ErrorPositionErr error

record ErrorPositionParser = lineConsumer +
  ep_err :: "error option"
  ep_current :: "nat option"
  ep_currentSub :: "nat option"
  ep_output :: "ep_item list"
  ep_heap :: "ErrorPosition list"

datatype errorPositionParserStateFn =
    ParseTopLevel | ParseSourceFragment | ParseLocatedInExpression | ParseErrorPositionError

definition ep_new :: "ErrorPosition \<Rightarrow> ErrorPositionParser \<Rightarrow> nat \<times> ErrorPositionParser" where
  "ep_new n p = (length (ep_heap p), p\<lparr>ep_heap := ep_heap p @ [n]\<rparr>)"

text \<open>
  The records that \<^verbatim>\<open>parseTopLevel\<close> builds in its two branches, from the line without
  its prefix.  The first branch cuts the final colon off before it extracts row and
  column; the second branch passes the line on as it is.
\<close>

definition topLevel_eval :: "string \<Rightarrow> ErrorPosition result" where
  "topLevel_eval ln =
     rbind (slice_to ln (int (length ln) - 1)) (\<lambda>s.
     rbind (extractRowColumnFromString s) (\<lambda>(row, col).
     Value (zero_ErrorPosition\<lparr>ep_Eval := True, ep_Row := row, ep_Column := col\<rparr>)))"

definition topLevel_file :: "string \<Rightarrow> ErrorPosition result" where
  "topLevel_file ln =
     rbind (extractFileRowColumn ln) (\<lambda>(file, row, col).
     rbind (slice_range file 1 (int (length file) - 1)) (\<lambda>f.
     Value (zero_ErrorPosition\<lparr>ep_File := f, ep_Row := row, ep_Column := col\<rparr>)))"

definition set_current :: "ErrorPosition \<Rightarrow> ErrorPositionParser \<Rightarrow> ErrorPositionParser" where
  "set_current n p = (let (a, p1) = ep_new n p in p1\<lparr>ep_current := Some a\<rparr>)"

definition parseTopLevel ::
  "ErrorPositionParser \<Rightarrow> (errorPositionParserStateFn, ErrorPositionParser) step" where
  "parseTopLevel p =
     (case fetchNextLine p of
        (False, p1) \<Rightarrow> Step None p1
      | (True, p1) \<Rightarrow>
          (let ln = TrimPrefix (line p1) ''In eval expression, '' in
           if length (line p1) > length ln
           then (case topLevel_eval ln of
                   Crash m \<Rightarrow> Abort m p1
                 | Error e \<Rightarrow> Step (Some ParseErrorPositionError) (p1\<lparr>ep_err := Some e\<rparr>)
                 | Value n \<Rightarrow> Step (Some ParseSourceFragment) (consumeLine (set_current n p1)))
           else (let ln = TrimPrefix (line p1) ''In file '' in
                 if length (line p1) > length ln
                 then (case topLevel_file ln of
                         Crash m \<Rightarrow> Abort m p1
                       | Error e \<Rightarrow> Step (Some ParseErrorPositionError) (p1\<lparr>ep_err := Some e\<rparr>)
                       | Value n \<Rightarrow> Step (Some ParseSourceFragment) (consumeLine (set_current n p1)))
                 else Step None p1)))"

definition set_fragment :: "nat \<Rightarrow> string \<Rightarrow> ErrorPositionParser \<Rightarrow> ErrorPositionParser" where
  "set_fragment a ln p = p\<lparr>ep_heap := (ep_heap p)[a := (ep_heap p ! a)\<lparr>ep_SourceFragment := ln\<rparr>]\<rparr>"

definition parseSourceFragment ::
  "ErrorPositionParser \<Rightarrow> (errorPositionParserStateFn, ErrorPositionParser) step" where
  "parseSourceFragment p =
     (case fetchNextLine p of
        (b, p1) \<Rightarrow>
          (let ln = TrimPrefix (line p1) ''>> '' in
           if b \<and> length (line p1) > length ln
           then (case ep_currentSub p1 of
                   Some a \<Rightarrow> Step (Some ParseLocatedInExpression) (consumeLine (set_fragment a ln p1))
                 | None \<Rightarrow>
                     (case ep_current p1 of
                        Some c \<Rightarrow>
                          Step (Some ParseLocatedInExpression) (consumeLine (set_fragment c ln p1))
                      | None \<Rightarrow> Abort ''nil pointer dereference'' p1))
           else Step (Some ParseErrorPositionError)
                  (p1\<lparr>ep_err := Some (Errorf ''expected source fragment line, got %v'' [line p1])\<rparr>)))"

text \<open>
  The record \<^verbatim>\<open>s\<close> that \<^verbatim>\<open>parseLocatedInExpression\<close> builds in its three branches,
  from the line without the prefix \<^verbatim>\<open>Located in\<close>, and the assignment that links it:
  to \<^verbatim>\<open>p.current\<close> if that has no link yet, to \<^verbatim>\<open>p.currentSub\<close> otherwise.
\<close>

definition locatedIn_node :: "string \<Rightarrow> ErrorPosition result" where
  "locatedIn_node ln =
     (let ln2 = TrimPrefix ln '' enclosing eval expression, at '' in
      if length ln2 < length ln
      then rbind (slice_to ln2 (int (length ln2) - 1)) (\<lambda>s.
           rbind (extractRowColumnFromString s) (\<lambda>(row, col).
           Value (zero_ErrorPosition\<lparr>ep_Eval := True, ep_Row := row, ep_Column := col\<rparr>)))
      else (let ln2 = TrimPrefix ln '' file '' in
            if length ln > length ln2
            then rbind (slice_to ln2 (int (length ln2) - 1)) (\<lambda>s.
                 rbind (extractFileRowColumn s) (\<lambda>(file, row, col).
                 rbind (slice_range file 1 (int (length file) - 1)) (\<lambda>f.
                 Value (zero_ErrorPosition\<lparr>ep_File := f, ep_Row := row, ep_Column := col\<rparr>))))
            else if ln = '':'' then Value zero_ErrorPosition
            else Error (ErrorNew ''`Located in` line with unrecognised suffix'')))"

definition link_node :: "nat \<Rightarrow> ErrorPositionParser \<Rightarrow> ErrorPositionParser option" where
  "link_node s p =
     (case ep_current p of
        None \<Rightarrow> None
      | Some c \<Rightarrow>
          if ep_LocatedIn (ep_heap p ! c) = None
          then Some (p\<lparr>ep_heap := (ep_heap p)[c := (ep_heap p ! c)\<lparr>ep_LocatedIn := Some s\<rparr>]\<rparr>)
          else (case ep_currentSub p of
                  None \<Rightarrow> None
                | Some cs \<Rightarrow>
                    Some (p\<lparr>ep_heap := (ep_heap p)[cs := (ep_heap p ! cs)\<lparr>ep_LocatedIn := Some s\<rparr>]\<rparr>)))"

definition parseLocatedInExpression ::
  "ErrorPositionParser \<Rightarrow> (errorPositionParserStateFn, ErrorPositionParser) step" where
  "parseLocatedInExpression p =
     (case fetchNextLine p of
        (b, p1) \<Rightarrow>
          (let ln = TrimPrefix (line p1) ''Located in'' in
           if b \<and> length (line p1) > length ln
           then (case locatedIn_node ln of
                   Crash m \<Rightarrow> Abort m p1
                 | Error e \<Rightarrow> Step (Some ParseErrorPositionError) (p1\<lparr>ep_err := Some e\<rparr>)
                 | Value n \<Rightarrow>
                     (let (s, p2) = ep_new n p1 in
                      case link_node s p2 of
                        None \<Rightarrow> Abort ''nil pointer dereference'' p2
                      | Some p3 \<Rightarrow>
                          Step (Some ParseSourceFragment)
                            (consumeLine (p3\<lparr>ep_currentSub := Some s\<rparr>))))
           else Step None p1))"

definition parseErrorPositionError ::
  "ErrorPositionParser \<Rightarrow> (errorPositionParserStateFn, ErrorPositionParser) step" where
  "parseErrorPositionError p =
     (case ep_err p of
        None \<Rightarrow> Abort ''parser error triggered but error value not set'' p
      | Some e \<Rightarrow> Step None (p\<lparr>ep_output := ep_output p @ [ErrorPositionErr e]\<rparr>))"

fun ep_state ::
  "errorPositionParserStateFn \<Rightarrow> ErrorPositionParser
     \<Rightarrow> (errorPositionParserStateFn, ErrorPositionParser) step" where
  "ep_state ParseTopLevel p = parseTopLevel p"
| "ep_state ParseSourceFragment p = parseSourceFragment p"
| "ep_state ParseLocatedInExpression p = parseLocatedInExpression p"
| "ep_state ParseErrorPositionError p = parseErrorPositionError p"

fun ep_measure :: "errorPositionParserStateFn option \<times> ErrorPositionParser \<Rightarrow> nat" where
  "ep_measure (None, p) = 0"
| "ep_measure (Some s, p) = 2 * pending p + (if s = ParseErrorPositionError then 1 else 2)"

lemma ep_state_measure:
  "ep_state s p = Step st' p' \<Longrightarrow> ep_measure (st', p') < ep_measure (Some s, p)"
proof -
  assume a: "ep_state s p = Step st' p'"
  obtain b p1 where f: "fetchNextLine p = (b, p1)" by (cases "fetchNextLine p")
  note pf = pending_fetch [OF f]
  have c: "pending (consumeLine q) < pending p" if "b" "pending q = pending p1" "\<not> processed q"
    for q :: ErrorPositionParser
    using that pf pending_consume [of q] by simp
  show ?thesis
  proof (cases s)
    case ParseTopLevel
    then show ?thesis using a f pf
      by (cases st'; cases b)
         (auto simp add: parseTopLevel_def Let_def set_current_def ep_new_def pending_def consumeLine_def
          split: if_splits result.splits)
  next
    case ParseSourceFragment
    then show ?thesis using a f pf
      by (cases st'; cases b)
         (auto simp add: parseSourceFragment_def Let_def pending_def consumeLine_def set_fragment_def
          split: if_splits option.splits)
  next
    case ParseLocatedInExpression
    then show ?thesis using a f pf
      by (cases st'; cases b)
         (auto simp add: parseLocatedInExpression_def Let_def ep_new_def link_node_def pending_def
            consumeLine_def split: if_splits result.splits option.splits)
  next
    case ParseErrorPositionError
    then show ?thesis using a
      by (auto simp add: parseErrorPositionError_def split: option.splits)
  qed
qed

function ep_loop ::
  "errorPositionParserStateFn option \<Rightarrow> ErrorPositionParser
     \<Rightarrow> (errorPositionParserStateFn, ErrorPositionParser) step" where
  "ep_loop None p = Step None p"
| "ep_loop (Some s) p =
     (case ep_state s p of
        Step st' p' \<Rightarrow> ep_loop st' p'
      | Abort m p' \<Rightarrow> Abort m p')"
  by pat_completeness auto
termination
proof (relation "measure ep_measure")
  fix s p x11 x12
  assume "ep_state s p = Step x11 x12"
  then show "((x11, x12), (Some s, p)) \<in> measure ep_measure"
    using ep_state_measure [of s p x11 x12] by simp
qed simp

text \<open>
  \<^verbatim>\<open>run\<close> sends \<^verbatim>\<open>p.current\<close> when the loop is over, a record was started and no
  error was set.  Since the record is a pointer, the result is the stream together with
  the final heap.
\<close>

definition ErrorPositionParser_run ::
  "ErrorPositionParser \<Rightarrow> ep_item stream \<times> ErrorPosition list" where
  "ErrorPositionParser_run p =
     (case ep_loop (Some ParseTopLevel) p of
        Abort m p' \<Rightarrow> (Crashed m (ep_output p'), ep_heap p')
      | Step st' p' \<Rightarrow>
          (case ep_current p' of
             Some c \<Rightarrow>
               if ep_err p' = None
               then (Closed (ep_output p' @ [ErrorPositionItem c]), ep_heap p')
               else (Closed (ep_output p'), ep_heap p')
           | None \<Rightarrow> (Closed (ep_output p'), ep_heap p')))"

definition new_ErrorPositionParser :: ErrorPositionParser where
  "new_ErrorPositionParser =
     \<lparr>source = [], line = [], processed = False,
      ep_err = None, ep_current = None, ep_currentSub = None, ep_output = [], ep_heap = []\<rparr>"

definition ErrorPositionParser_start ::
  "ErrorPositionParser \<Rightarrow> lineConsumer \<Rightarrow> ep_item stream \<times> ErrorPosition list" where
  "ErrorPositionParser_start p consumer =
     ErrorPositionParser_run
       (p\<lparr>source := source consumer, line := line consumer, processed := processed consumer,
          ep_output := []\<rparr>)"

section \<open>Inputs of the ErrorPosition parser that the statements speak about\<close>

text \<open>
  What the parser makes of a single raw line: the source fragment of a line that, once
  trimmed, starts with \<^verbatim>\<open>>> \<close>; the record of a top-level position line and of a
  \<^verbatim>\<open>Located in\<close> line, where the branch of the parser that the line selects returns
  one.  A sequence of links is a list of pairs of a \<^verbatim>\<open>Located in\<close> line and its fragment
  line.
\<close>

definition fragment_of :: "string \<Rightarrow> string option" where
  "fragment_of raw =
     (let l = TrimSpace raw in if HasPrefix l ''>> '' then Some (TrimPrefix l ''>> '') else None)"

definition top_node_of :: "string \<Rightarrow> ErrorPosition option" where
  "top_node_of raw =
     (let l = TrimSpace raw in
      if HasPrefix l ''In eval expression, ''
      then (case topLevel_eval (TrimPrefix l ''In eval expression, '') of Value n \<Rightarrow> Some n | Error e \<Rightarrow> None | Crash m \<Rightarrow> None)
      else if HasPrefix l ''In file ''
      then (case topLevel_file (TrimPrefix l ''In file '') of Value n \<Rightarrow> Some n | Error e \<Rightarrow> None | Crash m \<Rightarrow> None)
      else None)"

definition located_node_of :: "string \<Rightarrow> ErrorPosition option" where
  "located_node_of raw =
     (let l = TrimSpace raw in
      if HasPrefix l ''Located in''
      then (case locatedIn_node (TrimPrefix l ''Located in'') of Value n \<Rightarrow> Some n | Error e \<Rightarrow> None | Crash m \<Rightarrow> None)
      else None)"

fun link_lines :: "(string \<times> string) list \<Rightarrow> string list" where
  "link_lines [] = []"
| "link_lines ((l, f) # xs) = l # f # link_lines xs"

text \<open>
  The heap that holds a chain of records, each one linked to the next address, allocated
  from address \<open>a\<close> on; and the addresses reached from \<open>a\<close> by following
  \<^verbatim>\<open>LocatedIn\<close> at most \<open>k\<close> times, which is \<open>None\<close> if the chain leaves the heap or
  does not end within \<open>k\<close> records (as a cyclic one would not).
\<close>

fun build_chain :: "nat \<Rightarrow> (ErrorPosition \<times> string) list \<Rightarrow> ErrorPosition list" where
  "build_chain a [] = []"
| "build_chain a [(n, s)] = [n\<lparr>ep_SourceFragment := s, ep_LocatedIn := None\<rparr>]"
| "build_chain a ((n, s) # x # xs) =
     n\<lparr>ep_SourceFragment := s, ep_LocatedIn := Some (Suc a)\<rparr> # build_chain (Suc a) (x # xs)"

fun chain_from :: "ErrorPosition list \<Rightarrow> nat \<Rightarrow> nat \<Rightarrow> nat list option" where
  "chain_from h 0 a = None"
| "chain_from h (Suc k) a =
     (if length h \<le> a then None
      else (case ep_LocatedIn (h ! a) of
              None \<Rightarrow> Some [a]
            | Some b \<Rightarrow> map_option ((#) a) (chain_from h k b)))"

definition link_nodes :: "(string \<times> string) list \<Rightarrow> (ErrorPosition \<times> string) list" where
  "link_nodes links = map (\<lambda>(l, f). (the (located_node_of l), the (fragment_of f))) links"

definition links_ok :: "(string \<times> string) list \<Rightarrow> bool" where
  "links_ok links = list_all (\<lambda>(l, f). located_node_of l \<noteq> None \<and> fragment_of f \<noteq> None) links"

definition epo_example_links :: "(string \<times> string) list" where
  "epo_example_links =
     [(''Located in enclosing eval expression, at line 1, column 1:'', ''>> eval x;''),
      (''Located in:'', ''>> eval y;'')]"

definition epo_example_heap :: "ErrorPosition list" where
  "epo_example_heap =
     [\<lparr>ep_File = [], ep_Eval = True, ep_Row = 1, ep_Column = 3,
       ep_SourceFragment = ''3 mod 0;'', ep_LocatedIn = Some 1\<rparr>,
      \<lparr>ep_File = [], ep_Eval = True, ep_Row = 1, ep_Column = 1,
       ep_SourceFragment = ''eval x;'', ep_LocatedIn = Some 2\<rparr>,
      \<lparr>ep_File = [], ep_Eval = False, ep_Row = 0, ep_Column = 0,
       ep_SourceFragment = ''eval y;'', ep_LocatedIn = None\<rparr>]"

section \<open>The status tags in the decoder (\<^verbatim>\<open>Process.parseStdoutLines\<close>)\<close>

definition parseReady :: "string list \<Rightarrow> Ready result" where
  "parseReady tagFields =
     (if length tagFields \<noteq> 5 then Error (ErrorNew ''parsing RDY: require 5 parameters'')
      else let r = \<lparr>Ident = (tagFields ! 0 = ''1''), Frame = (tagFields ! 1 = ''1''),
                     Verbose = (tagFields ! 2 = ''1''), Set_changed = (tagFields ! 3 = ''1''),
                     Types = 0\<rparr>
           in case Atoi (tagFields ! 4) of
                Error e \<Rightarrow> Error (ErrorWrap ''RDY parsing number of types: %v'' e)
              | Crash m \<Rightarrow> Crash m
              | Value types \<Rightarrow> Value (r\<lparr>Types := types\<rparr>))"

text \<open>
  \<^verbatim>\<open>parseRun\<close>.  The conversions \<^verbatim>\<open>uint(seed)\<close> and \<^verbatim>\<open>uint64(step)\<close> wrap a negative
  number around.
\<close>

definition parseRun :: "string list \<Rightarrow> (chunk \<times> Seed option) result" where
  "parseRun tagFields =
     (if length tagFields \<noteq> 6 then Error (ErrorNew ''parsing RUN: require 6 parameters'')
      else rbind (Atoi (tagFields ! 0)) (\<lambda>seed.
           rbind (Atoi (tagFields ! 1)) (\<lambda>step.
           rbind (slice_from tagFields 2) (\<lambda>rest.
           rbind (parseResponse rest) (\<lambda>c.
           Value (c, Some \<lparr>Seed_value = seed mod 2 ^ 64, Step = step mod 2 ^ 64\<rparr>))))))"

text \<open>
  One pass of the loop of \<^verbatim>\<open>parseStdoutLines\<close> either goes on to the next line,
  returns (with an error or \<^verbatim>\<open>nil\<close>), or panics.
\<close>

datatype dstep = Next world | Return "error option" world | Panics string world

fun lift :: "world outcome \<Rightarrow> dstep" where
  "lift (Ok w) = Next w"
| "lift (Panic m w) = Panics m w"

text \<open>
  The \<^verbatim>\<open>select\<close> statements of the decoder do not wait: they take what another
  goroutine has left in a channel, if anything.  What is there when a tag is processed is
  an input of the step: the Output that \<^verbatim>\<open>Execute\<close> has put in the handshake channel
  \<^verbatim>\<open>rch\<close>, and the acknowledgment channels registered in \<^verbatim>\<open>p.quit\<close> and
  \<^verbatim>\<open>p.interrupt\<close>.
\<close>

record inbox =
  in_rch :: "Output option"
  in_quit :: "achan option"
  in_interrupt :: "achan option"

text \<open>
  The first \<^verbatim>\<open>switch\<close> of the loop, on the status tags; \<open>None\<close> is its
  \<^verbatim>\<open>default\<close> case (\<^verbatim>\<open>done = false\<close>), which leaves the line to the switch on the
  output tags.  For \<^verbatim>\<open>RDY\<close>, \<^verbatim>\<open>make(chan *Output, 1)\<close> takes the next unused channel
  number.
\<close>

definition statusSwitch :: "string \<Rightarrow> string list \<Rightarrow> inbox \<Rightarrow> world \<Rightarrow> dstep option" where
  "statusSwitch tg tagFields env w =
     (if tg = TagReady then
        Some (case parseReady tagFields of
                Error e \<Rightarrow> Return (Some e) w
              | Crash m \<Rightarrow> Panics m w
              | Value r \<Rightarrow>
                  (case ready (emit (EvStatus (ReadyV r)) w) of
                     Panic m w1 \<Rightarrow> Panics m w1
                   | Ok (b, w1) \<Rightarrow>
                       if b
                       then Next (emit (EvReadyOffer (fresh w1))
                                    (w1\<lparr>rch := Some (fresh w1), fresh := Suc (fresh w1)\<rparr>))
                       else Next w1))
      else if tg = TagInputReceived then
        Some (let w1 = emit (EvStatus (StatusV tg)) w in
              case (rch w1, in_rch env) of
                (Some c, Some r) \<Rightarrow>
                  (case init r w1 of
                     Panic m w2 \<Rightarrow> Panics m w2
                   | Ok w2 \<Rightarrow> Next (emit (EvResponse r) (emit (EvCloseHandshake c) w2\<lparr>rch := None\<rparr>)))
              | _ \<Rightarrow> Return (Some (ErrorNew ''expected Output to be waiting'')) w1)
      else if tg = TagReset then
        Some (Next (emit (EvStatus (StatusV tg)) w))
      else if tg = TagQuit then
        Some (let w1 = emit (EvStatus (StatusV tg)) w in
              case in_quit env of
                Some qch \<Rightarrow> Return None (emit (EvCloseAck qch) w1)
              | None \<Rightarrow> Return None w1)
      else if tg = TagInterrupt then
        Some (let w1 = emit (EvStatus (StatusV tg)) w in
              case in_interrupt env of
                Some ich \<Rightarrow> Next (emit (EvCloseAck ich) w1)
              | None \<Rightarrow> Next w1)
      else if tg = TagRun then
        Some (let w1 = emit (EvStatus (StatusV tg)) w in
              case parseRun tagFields of
                Error e \<Rightarrow> Return (Some e) w1
              | Crash m \<Rightarrow> Panics m w1
              | Value (chk, seed) \<Rightarrow> lift (run chk seed w1))
      else if tg = TagErrorParse then
        Some (let w1 = emit (EvStatus (StatusV tg)) w in
              case parseResponse tagFields of
                Error e \<Rightarrow> Return (Some (ErrorWrap ''ERP parsing Response: %v'' e)) w1
              | Crash m \<Rightarrow> Panics m w1
              | Value chk \<Rightarrow> lift (parseError chk w1))
      else None)"

text \<open>
  A line reaches the switch through \<^verbatim>\<open>parseTagLine\<close>; a line without a tag name is
  skipped.
\<close>

definition statusLine :: "string \<Rightarrow> inbox \<Rightarrow> world \<Rightarrow> dstep option" where
  "statusLine output env w =
     (case parseTagLine output of
        (Some tagName, tagFields, data) \<Rightarrow> statusSwitch tagName tagFields env w
      | (None, tagFields, data) \<Rightarrow> Some (Next w))"

text \<open>
  The events that \<^verbatim>\<open>ready\<close> adds, and the state it leaves behind: the current
  Response and the current Output are closed, in this order, and cleared.
\<close>

definition ready_closes :: "world \<Rightarrow> event list" where
  "ready_closes w =
     (case h_c w of None \<Rightarrow> [] | Some s \<Rightarrow> [EvCloseResponse (responser_ch s)]) @
     (case h_r w of None \<Rightarrow> [] | Some e \<Rightarrow> [EvCloseOutput (out_ch e)])"

definition current_open :: "world \<Rightarrow> bool" where
  "current_open w \<longleftrightarrow>
     (case h_c w of None \<Rightarrow> True | Some s \<Rightarrow> responser_ch s \<notin> closed_r w) \<and>
     (case h_r w of None \<Rightarrow> True | Some e \<Rightarrow> out_ch e \<notin> closed_o w)"

definition empty_inbox :: inbox where
  "empty_inbox = \<lparr>in_rch = None, in_quit = None, in_interrupt = None\<rparr>"

definition ready_example :: Ready where
  "ready_example = \<lparr>Ident = True, Frame = False, Verbose = False, Set_changed = True, Types = 12\<rparr>"


section \<open>The process handle: \<^verbatim>\<open>Execute\<close> and \<^verbatim>\<open>Quit\<close> (proc/proc.go)\<close>

text \<open>
  The part of a \<^verbatim>\<open>Process\<close> that \<^verbatim>\<open>checkRunning\<close>, \<^verbatim>\<open>Execute\<close> and \<^verbatim>\<open>Quit\<close> read
  or write.  A buffered channel is the list of the values in its buffer; \<^verbatim>\<open>Start\<close>
  makes \<^verbatim>\<open>p.ready\<close>, \<^verbatim>\<open>p.response\<close>, \<^verbatim>\<open>p.writer\<close>, \<^verbatim>\<open>p.interrupt\<close> and
  \<^verbatim>\<open>p.quit\<close> with a buffer of one, and \<^verbatim>\<open>Wait\<close> closes them all together.  The
  channel \<^verbatim>\<open>p.writer\<close> holds the writer of the child's standard input or nothing.
  What is written to the standard input is kept in a log, and a write fails with the
  error that the pipe reports, if it reports one.
\<close>

record Process =
  p_cmd :: bool                    \<comment> \<open>\<^verbatim>\<open>p.cmd != nil\<close>\<close>
  p_cmd_Process :: bool            \<comment> \<open>\<^verbatim>\<open>p.cmd.Process != nil\<close>\<close>
  p_ready :: "nat list"            \<comment> \<open>\<^verbatim>\<open>p.ready\<close>: the handshake channels on offer\<close>
  p_response :: "Output list"      \<comment> \<open>\<^verbatim>\<open>p.response\<close>\<close>
  p_writer :: bool                 \<comment> \<open>the writer is in \<^verbatim>\<open>p.writer\<close>\<close>
  p_quit :: "achan list"           \<comment> \<open>\<^verbatim>\<open>p.quit\<close>\<close>
  p_interrupt :: "achan list"      \<comment> \<open>\<^verbatim>\<open>p.interrupt\<close>\<close>
  p_closed :: bool                 \<comment> \<open>\<^verbatim>\<open>Wait\<close> has closed the channels\<close>
  handshake :: "(nat \<times> Output) list"  \<comment> \<open>the Outputs sent on handshake channels\<close>
  stdin :: "string list"           \<comment> \<open>the writes to the child's standard input\<close>
  stdin_err :: "error option"      \<comment> \<open>the error of a write to the standard input\<close>
  next_chan :: nat                 \<comment> \<open>the next unused channel number\<close>

text \<open>
  A call returns a value, returns an error, waits at a channel for another goroutine, or
  panics; each outcome carries the state reached.
\<close>

datatype 'a call =
    Returned 'a Process
  | Failed error Process
  | Waiting string Process
  | Panicked string Process

fun call_state :: "'a call \<Rightarrow> Process" where
  "call_state (Returned x p) = p"
| "call_state (Failed e p) = p"
| "call_state (Waiting c p) = p"
| "call_state (Panicked m p) = p"

definition checkRunning :: "Process \<Rightarrow> error option" where
  "checkRunning p =
     (if \<not> p_cmd p then Some (ErrorNew ''magma/proc: process not started'')
      else if \<not> p_cmd_Process p then Some (ErrorNew ''magma/proc: process is not running'')
      else None)"

definition newOutput :: "string \<Rightarrow> Process \<Rightarrow> Output \<times> Process" where
  "newOutput input p =
     (\<lparr>cmd = input, out_ch = OChan (next_chan p)\<rparr>, p\<lparr>next_chan := Suc (next_chan p)\<rparr>)"

definition Write :: "string \<Rightarrow> Process \<Rightarrow> error option \<times> Process" where
  "Write s p =
     (case stdin_err p of
        Some e \<Rightarrow> (Some e, p)
      | None \<Rightarrow> (None, p\<lparr>stdin := stdin p @ [s]\<rparr>))"

text \<open>
  \<^verbatim>\<open>Execute\<close>.  The handshake channel taken from \<^verbatim>\<open>p.ready\<close> was made by the decoder
  with a buffer of one and has no other sender, so that the send on it does not wait.
  The deferred \<^verbatim>\<open>p.writer <- w\<close> runs at every return after the writer was taken.  A
  receive from the closed and empty \<^verbatim>\<open>p.writer\<close> yields a \<^verbatim>\<open>nil\<close> writer.
\<close>

definition Execute :: "string \<Rightarrow> Process \<Rightarrow> Output call" where
  "Execute s p =
     (case checkRunning p of
        Some e \<Rightarrow> Failed e p
      | None \<Rightarrow>
          (case p_ready p of
             [] \<Rightarrow>
               if p_closed p
               then Failed (ErrorNew ''magma/proc: Execute() called after process has completed'') p
               else Waiting ''p.ready'' p
           | c # rest \<Rightarrow>
               (let (e, p1) = newOutput s (p\<lparr>p_ready := rest\<rparr>);
                    p2 = p1\<lparr>handshake := handshake p1 @ [(c, e)]\<rparr>
                in if \<not> p_writer p2
                   then (if p_closed p2 then Panicked ''nil pointer dereference'' p2
                         else Waiting ''p.writer'' p2)
                   else
                     (case Write s (p2\<lparr>p_writer := False\<rparr>) of
                        (Some err, p3) \<Rightarrow> Failed err (p3\<lparr>p_writer := True\<rparr>)
                      | (None, p3) \<Rightarrow>
                          (case Write [runCommandChar] p3 of
                             (Some err, p4) \<Rightarrow> Failed err (p4\<lparr>p_writer := True\<rparr>)
                           | (None, p4) \<Rightarrow>
                               (case p_response p4 of
                                  [] \<Rightarrow>
                                    if p_closed p4
                                    then Failed (ErrorNew
                                      ''magma/proc: Execute() response not returned before process completed'')
                                      (p4\<lparr>p_writer := True\<rparr>)
                                    else Waiting ''p.response'' p4
                                | r # rs \<Rightarrow>
                                    Returned r (p4\<lparr>p_response := rs, p_writer := True\<rparr>)))))))"

text \<open>
  \<^verbatim>\<open>Quit\<close>.  The \<^verbatim>\<open>select\<close> sends the new acknowledgment channel on \<^verbatim>\<open>p.quit\<close> if
  its buffer has room and takes the \<^verbatim>\<open>default\<close> case otherwise; a send on a closed
  channel panics.  \<^verbatim>\<open>Discard\<close> starts a goroutine that drains the output and returns
  at once.
\<close>

definition Quit :: "Process \<Rightarrow> achan call" where
  "Quit p =
     (case checkRunning p of
        Some e \<Rightarrow> Failed e p
      | None \<Rightarrow>
          (let q = AChan (next_chan p);
               p1 = p\<lparr>next_chan := Suc (next_chan p)\<rparr>
           in if p_closed p1 then Panicked ''send on closed channel'' p1
              else if length (p_quit p1) < 1
              then (case Execute ''quit;'' (p1\<lparr>p_quit := p_quit p1 @ [q]\<rparr>) of
                      Returned e p2 \<Rightarrow> Returned q p2
                    | Failed err p2 \<Rightarrow> Failed err p2
                    | Waiting c p2 \<Rightarrow> Waiting c p2
                    | Panicked m p2 \<Rightarrow> Panicked m p2)
              else Failed (ErrorNew ''magma/proc: Quit() has already been called'') p1))"

text \<open>
  A process after \<^verbatim>\<open>Start\<close> and the first \<^verbatim>\<open>RDY\<close> tag: the decoder has offered the
  handshake channel 1, the writer is available, nothing has been written.
\<close>

definition process_example :: Process where
  "process_example =
     \<lparr>p_cmd = True, p_cmd_Process = True, p_ready = [1], p_response = [], p_writer = True,
      p_quit = [], p_interrupt = [], p_closed = False, handshake = [], stdin = [],
      stdin_err = None, next_chan = 2\<rparr>"


section \<open>Properties\<close>

text \<open>
  Claim C10.  For every Tagged value, IsError holds exactly when the value's tag is one
  of the eight error tags ENE, EI, EU, ER, TB, POS, EPO and RDI\_ER.  It is false for the
  tags OUT, LST and SIG, for the four read-prompt tags and for all eight status tags; a
  Position value is always an error and a Ready value never is.
\<close>

theorem IsError_error_tags:
  "IsError t =
     (Tag t \<in> {''ENE'', ''EI'', ''EU'', ''ER'', ''TB'', ''POS'', ''EPO'', ''RDI_ER''})
   \<and> \<not> IsError (TagV ''OUT'') \<and> \<not> IsError (TagV ''LST'') \<and> \<not> IsError (TagV ''SIG'')
   \<and> \<not> IsError (TagV ''RD_PR'') \<and> \<not> IsError (TagV ''RD_IN'')
   \<and> \<not> IsError (TagV ''RDI_PR'') \<and> \<not> IsError (TagV ''RDI_IN'')
   \<and> \<not> IsError (StatusV ''RDY'') \<and> \<not> IsError (StatusV ''IR'')
   \<and> \<not> IsError (StatusV ''RUN'') \<and> \<not> IsError (StatusV ''ERP'')
   \<and> \<not> IsError (StatusV ''INT'') \<and> \<not> IsError (StatusV ''QUIT'')
   \<and> \<not> IsError (StatusV ''RES'') \<and> \<not> IsError (StatusV ''DRDY'')
   \<and> IsError (PositionV p) \<and> \<not> IsError (ReadyV r)"
  by (auto simp add: IsError_def tag_defs)

subsection \<open>The response handler\<close>

lemma opened_append: "opened (xs @ ys) = opened xs @ opened ys"
  by (induction xs rule: opened.induct) simp_all

lemma closed_responses_append: "closed_responses (xs @ ys) = closed_responses xs @ closed_responses ys"
  by (induction xs rule: closed_responses.induct) simp_all

lemma monitor_snoc: "monitor (tr @ [e]) = mstep (monitor tr) e"
  by (simp add: monitor_def)

lemma monitor_Nil: "monitor [] = Some ({}, {})"
  by (simp add: monitor_def)

lemma mstep_Some: "mstep m e = Some s \<Longrightarrow> \<exists>s'. m = Some s'"
  by (cases m) simp_all

lemma monitor_prefix: "monitor (xs @ ys) = Some s \<Longrightarrow> \<exists>s'. monitor xs = Some s'"
proof (induction ys arbitrary: s rule: rev_induct)
  case Nil
  then show ?case by simp
next
  case (snoc y ys)
  from snoc.prems have "mstep (monitor (xs @ ys)) y = Some s"
    by (simp add: monitor_snoc flip: append_assoc)
  then obtain s' where "monitor (xs @ ys) = Some s'"
    using mstep_Some by blast
  then show ?case using snoc.IH by blast
qed

lemma monitor_take: "monitor tr = Some s \<Longrightarrow> \<exists>s'. monitor (take k tr) = Some s'"
  using monitor_prefix [of "take k tr" "drop k tr" s] by simp

lemma monitor_sets:
  "monitor tr = Some (opn, cls) \<Longrightarrow> opn = open_responses tr \<and> cls = set (closed_responses tr) \<and> card opn \<le> 1"
proof (induction tr arbitrary: opn cls rule: rev_induct)
  case Nil
  then show ?case by (simp add: monitor_Nil open_responses_def)
next
  case (snoc e tr)
  from snoc.prems have st: "mstep (monitor tr) e = Some (opn, cls)"
    by (simp add: monitor_snoc)
  then obtain o' c' where m: "monitor tr = Some (o', c')"
    using mstep_Some by fastforce
  from snoc.IH [OF m] have ih: "o' = open_responses tr" "c' = set (closed_responses tr)" "card o' \<le> 1"
    by blast+
  show ?case
  proof (cases e)
    case (EvOpen ch)
    with st m ih show ?thesis
      by (auto simp add: open_responses_def opened_append closed_responses_append split: if_splits)
  next
    case (EvCloseResponse ch)
    with st m ih show ?thesis
      by (auto simp add: open_responses_def opened_append closed_responses_append card_Diff_singleton_if split: if_splits)
  next
    case (EvSend ch t)
    with st m ih show ?thesis
      by (auto simp add: open_responses_def opened_append closed_responses_append split: if_splits)
  qed (use st m ih in \<open>auto simp add: open_responses_def opened_append closed_responses_append\<close>)
qed

lemma monitor_step_at:
  assumes "monitor tr = Some s" "k < length tr"
  shows "\<exists>opn cls s'. monitor (take k tr) = Some (opn, cls) \<and> mstep (Some (opn, cls)) (tr ! k) = Some s'"
proof -
  obtain s' where s': "monitor (take (Suc k) tr) = Some s'"
    using monitor_take [OF assms(1)] by blast
  have "take (Suc k) tr = take k tr @ [tr ! k]"
    using assms(2) by (simp add: take_Suc_conv_app_nth)
  with s' have "mstep (monitor (take k tr)) (tr ! k) = Some s'"
    by (simp add: monitor_snoc)
  then show ?thesis
    using mstep_Some by (metis surj_pair)
qed

lemma closed_responses_mem: "ch \<in> set (closed_responses tr) \<longleftrightarrow> EvCloseResponse ch \<in> set tr"
  by (induction tr rule: closed_responses.induct) auto

lemma monitor_no_send_after_close:
  assumes "monitor tr = Some s" "i < j" "j < length tr" "tr ! i = EvCloseResponse ch"
  shows "tr ! j \<noteq> EvSend ch t"
proof
  assume snd: "tr ! j = EvSend ch t"
  obtain opn cls s' where m: "monitor (take j tr) = Some (opn, cls)"
    and st: "mstep (Some (opn, cls)) (tr ! j) = Some s'"
    using monitor_step_at [OF assms(1,3)] by blast
  have "EvCloseResponse ch \<in> set (take j tr)"
    using assms(2,3,4) by (metis in_set_conv_nth length_take min_less_iff_conj nth_take order_less_trans)
  then have "ch \<in> cls"
    using monitor_sets [OF m] by (simp add: closed_responses_mem)
  with st snd show False by simp
qed

lemma monitor_open_first:
  assumes "monitor tr = Some s" "k < length tr" "tr ! k = EvOpen ch"
  shows "open_responses (take k tr) = {}"
proof -
  obtain opn cls s' where m: "monitor (take k tr) = Some (opn, cls)"
    and st: "mstep (Some (opn, cls)) (tr ! k) = Some s'"
    using monitor_step_at [OF assms(1,2)] by blast
  from st assms(3) have "opn = {}" by (simp split: if_splits)
  with monitor_sets [OF m] show ?thesis by simp
qed

lemma monitor_at_most_one:
  assumes "monitor tr = Some s"
  shows "card (open_responses (take k tr)) \<le> 1"
proof -
  obtain s' where "monitor (take k tr) = Some s'"
    using monitor_take [OF assms] by blast
  then show ?thesis using monitor_sets [of "take k tr" "fst s'" "snd s'"] by auto
qed

lemma monitor_app: "monitor (tr @ es) = foldl mstep (monitor tr) es"
  by (simp add: monitor_def)

lemma hinv_new_world: "hinv new_world"
  by (simp add: hinv_def new_world_def current_set_def monitor_Nil)

lemma hinv_close_response:
  assumes "hinv w" "h_c w = Some s"
  shows "\<exists>w1. close_response s w = Ok w1 \<and> h_r w1 = h_r w \<and> fresh w1 = fresh w \<and> closed_o w1 = closed_o w
           \<and> closed_r w1 = insert (responser_ch s) (closed_r w)
           \<and> monitor (trace w1) = Some ({}, closed_r w1)
           \<and> (\<forall>n. RChan n \<in> closed_r w1 \<longrightarrow> n < fresh w1)"
  using assms
  by (auto simp add: hinv_def close_response_def emit_def monitor_app current_set_def)

lemma hinv_newResponse:
  assumes "hinv w" "responser_ch r = RChan (fresh w)"
  shows "hinv (final (newResponse chk r (w\<lparr>fresh := Suc (fresh w)\<rparr>)))"
proof (cases "h_c w")
  case None
  with assms show ?thesis
    by (auto simp add: hinv_def newResponse_def emit_def monitor_app current_set_def Let_def
        split: option.splits dest: less_SucI)
next
  case (Some s)
  let ?w = "w\<lparr>fresh := Suc (fresh w)\<rparr>"
  have "hinv ?w" using assms(1) by (auto simp add: hinv_def current_set_def dest: less_SucI)
  moreover have "h_c ?w = Some s" using Some by simp
  ultimately obtain w1 where w1: "close_response s ?w = Ok w1" "h_r w1 = h_r ?w" "fresh w1 = fresh ?w"
      "closed_o w1 = closed_o ?w" "closed_r w1 = insert (responser_ch s) (closed_r ?w)"
      "monitor (trace w1) = Some ({}, closed_r w1)" "\<forall>n. RChan n \<in> closed_r w1 \<longrightarrow> n < fresh w1"
    using hinv_close_response by blast
  have fr: "RChan (fresh w) \<notin> closed_r w1"
    using w1(5) assms Some by (auto simp add: hinv_def)
  show ?thesis
    using Some w1 fr assms(2)
    by (auto simp add: hinv_def newResponse_def emit_def monitor_app current_set_def Let_def
        split: option.splits)
qed

lemma hinv_start: "hinv w \<Longrightarrow> hinv (final (start w))"
  using hinv_newResponse [of w "PlainResponse \<lparr>resp_cmd = [], resp_ch = RChan (fresh w)\<rparr>" zero_chunk]
  by (simp add: start_def make_rchan_def)

lemma hinv_run: "hinv w \<Longrightarrow> hinv (final (run chk sd w))"
  using hinv_newResponse [of w "Run \<lparr>resp_cmd = [], resp_ch = RChan (fresh w)\<rparr> sd" chk]
  by (simp add: run_def make_rchan_def)

lemma hinv_parseError: "hinv w \<Longrightarrow> hinv (final (parseError chk w))"
  using hinv_newResponse [of w "ParseError \<lparr>resp_cmd = [], resp_ch = RChan (fresh w)\<rparr>" chk]
  by (simp add: parseError_def make_rchan_def)

lemma hinv_internalError: "hinv w \<Longrightarrow> hinv (final (internalError w))"
  using hinv_newResponse [of w "InternalError \<lparr>resp_cmd = [], resp_ch = RChan (fresh w)\<rparr>" zero_chunk]
  by (simp add: internalError_def newInternalError_def make_rchan_def)

lemma hinv_init: "hinv w \<Longrightarrow> hinv (final (init e w))"
  by (simp add: init_def hinv_def current_set_def)

lemma hinv_send: "hinv w \<Longrightarrow> hinv (final (send t w))"
  by (auto simp add: send_def response_send_def hinv_def current_set_def emit_def monitor_app
      split: option.splits)

lemma hinv_ready: "hinv w \<Longrightarrow> hinv (final (obind (ready w) (\<lambda>(b, w1). Ok w1)))"
proof (cases "h_c w")
  case None
  assume "hinv w"
  with None show ?thesis
    by (auto simp add: ready_def close_output_def hinv_def current_set_def emit_def monitor_app
        split: option.splits)
next
  case (Some s)
  assume "hinv w"
  then obtain w1 where w1: "close_response s w = Ok w1" "h_r w1 = h_r w" "fresh w1 = fresh w"
      "closed_o w1 = closed_o w" "closed_r w1 = insert (responser_ch s) (closed_r w)"
      "monitor (trace w1) = Some ({}, closed_r w1)" "\<forall>n. RChan n \<in> closed_r w1 \<longrightarrow> n < fresh w1"
    using hinv_close_response Some by blast
  then show ?thesis
    using Some
    by (auto simp add: ready_def close_output_def hinv_def current_set_def emit_def monitor_app
        split: option.splits)
qed

lemma hinv_exec: "hinv w \<Longrightarrow> hinv (final (exec x w))"
  by (cases x) (simp_all add: hinv_init hinv_start hinv_run hinv_parseError hinv_internalError
      hinv_send hinv_ready)

lemma hinv_run_ops: "hinv w \<Longrightarrow> hinv (final (run_ops xs w))"
proof (induction xs arbitrary: w)
  case Nil
  then show ?case by simp
next
  case (Cons x xs)
  show ?case
  proof (cases "exec x w")
    case (Ok w1)
    then have "hinv w1" using hinv_exec [OF Cons.prems, of x] by simp
    then show ?thesis using Cons.IH Ok by simp
  next
    case (Panic m w1)
    then show ?thesis using hinv_exec [OF Cons.prems, of x] by simp
  qed
qed

lemma monitor_run_ops:
  "\<exists>s. monitor (trace (final (run_ops xs new_world))) = Some s"
  using hinv_run_ops [OF hinv_new_world, of xs] by (simp add: hinv_def)

lemma trace_ops_example:
  "trace (final (run_ops ops_example new_world)) =
     [EvOpen (RChan 0),
      EvPublish (OChan 0) (PlainResponse \<lparr>resp_cmd = [], resp_ch = RChan 0\<rparr>),
      EvSend (RChan 0) (TagV ''OUT''),
      EvCloseResponse (RChan 0),
      EvOpen (RChan 1),
      EvPublish (OChan 0) (Run \<lparr>resp_cmd = [], resp_ch = RChan 1\<rparr> None),
      EvSend (RChan 1) (TagV ''OUT''),
      EvCloseResponse (RChan 1),
      EvCloseOutput (OChan 0)]"
  by (simp add: ops_example_def new_world_def init_def start_def run_def send_def ready_def
      newResponse_def make_rchan_def close_response_def close_output_def response_send_def
      emit_def Let_def)

text \<open>
  Claim C1.  For every sequence of handler operations performed by the decoder, started
  from a new handler: at every moment at most one Response is open (current and accepting
  events); whenever a Response is opened (by start, run, parseError or internalError)
  no other Response is open any more, so a still-open previous Response has been closed
  first; and no event is sent on the channel of a Response after that channel was
  closed.  The statement covers every prefix of the trace, including the events of an
  operation that panics.
\<close>

theorem one_current_response:
  "(\<forall>k. card (open_responses (take k (trace (final (run_ops xs new_world))))) \<le> 1)
   \<and> (\<forall>k ch. k < length (trace (final (run_ops xs new_world)))
         \<and> trace (final (run_ops xs new_world)) ! k = EvOpen ch
        \<longrightarrow> open_responses (take k (trace (final (run_ops xs new_world)))) = {})
   \<and> (\<forall>i j ch t. i < j \<and> j < length (trace (final (run_ops xs new_world)))
         \<and> trace (final (run_ops xs new_world)) ! i = EvCloseResponse ch
        \<longrightarrow> trace (final (run_ops xs new_world)) ! j \<noteq> EvSend ch t)"
proof -
  obtain s where "monitor (trace (final (run_ops xs new_world))) = Some s"
    using monitor_run_ops by blast
  then show ?thesis
    using monitor_at_most_one monitor_open_first monitor_no_send_after_close by blast
qed

theorem one_current_response_witness:
  "(3::nat) < 6 \<and> 6 < length (trace (final (run_ops ops_example new_world)))
   \<and> trace (final (run_ops ops_example new_world)) ! 3 = EvCloseResponse (RChan 0)
   \<and> trace (final (run_ops ops_example new_world)) ! 6 \<noteq> EvSend (RChan 0) (TagV ''OUT'')
   \<and> trace (final (run_ops ops_example new_world)) ! 4 = EvOpen (RChan 1)
   \<and> open_responses (take 4 (trace (final (run_ops ops_example new_world)))) = {}
   \<and> card (open_responses (take 5 (trace (final (run_ops ops_example new_world))))) \<le> 1"
proof -
  note T = one_current_response [of ops_example]
  have a: "(3::nat) < 6 \<and> 6 < length (trace (final (run_ops ops_example new_world)))
      \<and> trace (final (run_ops ops_example new_world)) ! 3 = EvCloseResponse (RChan 0)"
    by (simp add: trace_ops_example)
  have b: "4 < length (trace (final (run_ops ops_example new_world)))
      \<and> trace (final (run_ops ops_example new_world)) ! 4 = EvOpen (RChan 1)"
    by (simp add: trace_ops_example)
  from T a have "trace (final (run_ops ops_example new_world)) ! 6 \<noteq> EvSend (RChan 0) (TagV ''OUT'')"
    by blast
  moreover from T b have "open_responses (take 4 (trace (final (run_ops ops_example new_world)))) = {}"
    by blast
  moreover from T have "card (open_responses (take 5 (trace (final (run_ops ops_example new_world))))) \<le> 1"
    by blast
  ultimately show ?thesis using a b by blast
qed

text \<open>
  Claim C5.  If a Response is current, internalError returns with the whole state
  unchanged: nothing is closed, opened, replaced or sent.  If no Response is current, it
  makes a new InternalError Response the current one, and opening it is the first event
  it adds.
\<close>

theorem internalError_frame:
  "(h_c w \<noteq> None \<longrightarrow> internalError w = Ok w)
   \<and> (h_c w = None \<longrightarrow>
        h_c (final (internalError w)) = Some (InternalError \<lparr>resp_cmd = [], resp_ch = RChan (fresh w)\<rparr>)
        \<and> take (Suc (length (trace w))) (trace (final (internalError w)))
            = trace w @ [EvOpen (RChan (fresh w))])"
  by (auto simp add: internalError_def newInternalError_def make_rchan_def newResponse_def
      emit_def Let_def split: option.splits)

theorem internalError_frame_witness:
  "h_c world_open \<noteq> None \<and> internalError world_open = Ok world_open
   \<and> h_c world_idle = None
   \<and> h_c (final (internalError world_idle)) = Some (InternalError \<lparr>resp_cmd = [], resp_ch = RChan 0\<rparr>)
   \<and> trace (final (internalError world_idle))
       = [EvOpen (RChan 0), EvPublish (OChan 0) (InternalError \<lparr>resp_cmd = [], resp_ch = RChan 0\<rparr>)]"
proof -
  have a: "h_c world_open \<noteq> None" by (simp add: world_open_def)
  have b: "h_c world_idle = None" by (simp add: world_idle_def new_world_def)
  have c: "fresh world_idle = 0" by (simp add: world_idle_def new_world_def)
  have d: "trace (final (internalError world_idle))
       = [EvOpen (RChan 0), EvPublish (OChan 0) (InternalError \<lparr>resp_cmd = [], resp_ch = RChan 0\<rparr>)]"
    by (simp add: world_idle_def new_world_def internalError_def newInternalError_def
        make_rchan_def newResponse_def emit_def Let_def)
  from internalError_frame [of world_open] a have "internalError world_open = Ok world_open"
    by blast
  moreover from internalError_frame [of world_idle] b c
  have "h_c (final (internalError world_idle)) = Some (InternalError \<lparr>resp_cmd = [], resp_ch = RChan 0\<rparr>)"
    by simp
  ultimately show ?thesis using a b d by blast
qed

subsection \<open>Fields contain no white space, and trimming leaves them unchanged\<close>






















subsection \<open>The tag framer, the chunk decoder and chunks\<close>









text \<open>
  The chunk decoder: for a list of fewer than two fields parseResponse panics at
  \<^verbatim>\<open>tagFields[:2]\<close>; for every other list that is not four integers it returns an
  error.
\<close>

lemma parseResponse_short:
  "length tagFields < 2 \<Longrightarrow> parseResponse tagFields = Crash ''slice bounds out of range''"
  by (simp add: parseResponse_def slice_to_def)

lemma parseHistoryPosition_cases:
  "(\<exists>p. parseHistoryPosition fs = Value p) \<or> (\<exists>e. parseHistoryPosition fs = Error e)"
  by (cases "Atoi (fs ! 0)"; cases "Atoi (fs ! 1)")
     (auto simp add: parseHistoryPosition_def Atoi_def Let_def split: if_splits)

lemma parseHistoryPosition_Value:
  "parseHistoryPosition fs = Value p \<longleftrightarrow>
     length fs = 2 \<and> Atoi (fs ! 0) = Value (Row p) \<and> Atoi (fs ! 1) = Value (Column p)"
  by (cases "Atoi (fs ! 0)"; cases "Atoi (fs ! 1)")
     (auto simp add: parseHistoryPosition_def)

lemma parseResponse_long:
  assumes "2 \<le> length tagFields"
    and "\<not> (length tagFields = 4 \<and> (\<forall>f \<in> set tagFields. \<exists>v. Atoi f = Value v))"
  shows "\<exists>e. parseResponse tagFields = Error e"
proof -
  have a: "slice_to tagFields 2 = Value (take 2 tagFields)"
    and b: "slice_from tagFields 2 = Value (drop 2 tagFields)"
    using assms(1) by (simp_all add: slice_to_def slice_from_def)
  from parseHistoryPosition_cases [of "take 2 tagFields"] show ?thesis
  proof (elim disjE exE)
    fix e assume "parseHistoryPosition (take 2 tagFields) = Error e"
    then show ?thesis by (simp add: parseResponse_def a)
  next
    fix p assume p: "parseHistoryPosition (take 2 tagFields) = Value p"
    from parseHistoryPosition_cases [of "drop 2 tagFields"] show ?thesis
    proof (elim disjE exE)
      fix e assume "parseHistoryPosition (drop 2 tagFields) = Error e"
      then show ?thesis using p by (simp add: parseResponse_def a b)
    next
      fix q assume q: "parseHistoryPosition (drop 2 tagFields) = Value q"
      from p q have len: "length tagFields = 4"
        using assms(1) by (auto simp add: parseHistoryPosition_Value)
      then obtain f0 f1 f2 f3 where fs: "tagFields = [f0, f1, f2, f3]"
        by (auto simp add: length_Suc_conv numeral_eq_Suc)
      from p q fs have "\<forall>f \<in> set tagFields. \<exists>v. Atoi f = Value v"
        by (auto simp add: parseHistoryPosition_Value)
      with assms(2) len show ?thesis by blast
    qed
  qed
qed

text \<open>
  Claim C4 says that parseResponse returns an error, and does not panic, for every list
  that is not four integer fields.  The source sets the error for a wrong length but
  does not return it, and then slices the first two fields: on the empty list and on a
  one-element list it panics.  The line \<^verbatim>\<open>\x81ERP\<close>, an ErrorParse tag without
  fields, is framed into the tag ERP with the empty list of fields, which the decoder
  passes to parseResponse.
\<close>

theorem parseResponse_panics_on_short_list:
  "parseResponse [] = Crash ''slice bounds out of range''
   \<and> parseResponse [''7''] = Crash ''slice bounds out of range''
   \<and> parseTagLine [newTagChar, CHR ''E'', CHR ''R'', CHR ''P''] = (Some ''ERP'', [], [])"
  by (simp add: parseResponse_def slice_to_def, code_simp)

text \<open>
  Claim C6 says that chunk.get returns the substring of the command between the start
  and the end position.  For start and end in the same row the source returns the row
  from the start column to its end, followed by the row from its beginning to the end
  column: for the command \<^verbatim>\<open>abcdef\<close> and the chunk from (0, 2) to (0, 4) it returns
  \<^verbatim>\<open>cdefabcd\<close>, where the substring is \<^verbatim>\<open>cd\<close>.
\<close>

theorem chunk_get_same_row:
  "chunk_get \<lparr>chunk_start = \<lparr>Row = 0, Column = 2\<rparr>, chunk_end = \<lparr>Row = 0, Column = 4\<rparr>\<rparr> ''abcdef''
     = Value ''cdefabcd''
   \<and> take (4 - 2) (drop 2 ''abcdef'') = ''cd''"
  by code_simp

subsection \<open>The ErrorPosition parser\<close>

lemma TrimPrefix_longer:
  assumes "p \<noteq> []"
  shows "length (TrimPrefix s p) < length s \<longleftrightarrow> HasPrefix s p"
proof (cases "HasPrefix s p")
  case True
  have lp: "1 \<le> length p" using assms by (cases p) simp_all
  moreover have "length p \<le> length s" using True by (simp add: HasPrefix_def)
  ultimately have "length s - length p < length s" by linarith
  then show ?thesis using True by (simp add: TrimPrefix_def)
next
  case False
  then show ?thesis by (simp add: TrimPrefix_def)
qed

lemma TrimPrefix_HasPrefix: "HasPrefix s p \<Longrightarrow> TrimPrefix s p = drop (length p) s"
  by (simp add: TrimPrefix_def)

lemma fetch_cons:
  "processed p \<Longrightarrow> source p = x # xs \<Longrightarrow>
     fetchNextLine p = (True, p\<lparr>source := xs, line := TrimSpace x, processed := False\<rparr>)"
  by (simp add: fetchNextLine_def)

lemma fetch_nil: "processed p \<Longrightarrow> source p = [] \<Longrightarrow> fetchNextLine p = (False, p)"
  by (simp add: fetchNextLine_def)

lemma length_build_chain: "length (build_chain a xs) = length xs"
  by (induction a xs rule: build_chain.induct) simp_all

lemma build_chain_snoc:
  "xs \<noteq> [] \<Longrightarrow>
   build_chain a (xs @ [(n, s)]) =
     (build_chain a xs)[length xs - 1 :=
        (build_chain a xs ! (length xs - 1))\<lparr>ep_LocatedIn := Some (a + length xs)\<rparr>]
     @ [n\<lparr>ep_SourceFragment := s, ep_LocatedIn := None\<rparr>]"
proof (induction a xs rule: build_chain.induct)
  case (1 a)
  then show ?case by simp
next
  case (2 a m t)
  then show ?case by simp
next
  case (3 a m t x xs)
  then show ?case by (cases x) (simp add: length_build_chain)
qed

lemma build_chain_head_link:
  "xs \<noteq> [] \<Longrightarrow> ep_LocatedIn (build_chain a xs ! 0) = (if length xs = 1 then None else Some (Suc a))"
  by (induction a xs rule: build_chain.induct) simp_all

lemma rbind_Value:
  "rbind r f = Value v \<Longrightarrow> \<exists>x. r = Value x \<and> f x = Value v"
  by (cases r) simp_all

lemma locatedIn_node_unlinked: "locatedIn_node ln = Value n \<Longrightarrow> ep_LocatedIn n = None"
  by (auto simp add: locatedIn_node_def Let_def zero_ErrorPosition_def
      split: if_splits prod.splits dest!: rbind_Value)

lemma topLevel_eval_unlinked: "topLevel_eval ln = Value n \<Longrightarrow> ep_LocatedIn n = None"
  by (auto simp add: topLevel_eval_def zero_ErrorPosition_def split: prod.splits dest!: rbind_Value)

lemma topLevel_file_unlinked: "topLevel_file ln = Value n \<Longrightarrow> ep_LocatedIn n = None"
  by (auto simp add: topLevel_file_def zero_ErrorPosition_def split: prod.splits dest!: rbind_Value)

lemma located_node_of_unlinked: "located_node_of l = Some n \<Longrightarrow> ep_LocatedIn n = None"
  by (auto simp add: located_node_of_def Let_def locatedIn_node_unlinked
      split: if_splits result.splits)

lemma top_node_of_unlinked: "top_node_of l = Some n \<Longrightarrow> ep_LocatedIn n = None"
  by (auto simp add: top_node_of_def Let_def topLevel_eval_unlinked topLevel_file_unlinked
      split: if_splits result.splits)

lemma parseTopLevel_ok:
  assumes "processed p" "source p = l # rest" "top_node_of l = Some n"
  shows "parseTopLevel p =
     Step (Some ParseSourceFragment)
       (p\<lparr>source := rest, line := TrimSpace l, processed := True,
          ep_heap := ep_heap p @ [n], ep_current := Some (length (ep_heap p))\<rparr>)"
proof (cases "HasPrefix (TrimSpace l) ''In eval expression, ''")
  case True
  then have "topLevel_eval (TrimPrefix (TrimSpace l) ''In eval expression, '') = Value n"
    using assms(3) by (simp add: top_node_of_def Let_def split: result.splits)
  then show ?thesis
    using True assms(1,2)
    by (simp add: parseTopLevel_def fetch_cons Let_def TrimPrefix_longer
        set_current_def ep_new_def consumeLine_def)
next
  case False
  then have f: "HasPrefix (TrimSpace l) ''In file ''"
    and v: "topLevel_file (TrimPrefix (TrimSpace l) ''In file '') = Value n"
    using assms(3) by (simp_all add: top_node_of_def Let_def split: result.splits if_splits)
  show ?thesis
    using False f v assms(1,2)
    by (simp add: parseTopLevel_def fetch_cons Let_def TrimPrefix_longer
        set_current_def ep_new_def consumeLine_def)
qed

lemma parseSourceFragment_ok:
  assumes "processed p" "source p = f # rest" "fragment_of f = Some s"
    and "ep_currentSub p = Some a \<or> (ep_currentSub p = None \<and> ep_current p = Some a)"
  shows "parseSourceFragment p =
     Step (Some ParseLocatedInExpression)
       (p\<lparr>source := rest, line := TrimSpace f, processed := True,
          ep_heap := (ep_heap p)[a := (ep_heap p ! a)\<lparr>ep_SourceFragment := s\<rparr>]\<rparr>)"
proof -
  have h: "HasPrefix (TrimSpace f) ''>> ''" and s: "s = TrimPrefix (TrimSpace f) ''>> ''"
    using assms(3) by (auto simp add: fragment_of_def Let_def split: if_splits)
  show ?thesis
    using h s assms(1,2,4)
    by (auto simp add: parseSourceFragment_def fetch_cons Let_def TrimPrefix_longer
        consumeLine_def set_fragment_def)
qed

lemma parseLocatedInExpression_ok:
  assumes "processed p" "source p = l # rest" "located_node_of l = Some n"
    and "ep_current p = Some c" "c < length (ep_heap p)"
    and "(if ep_LocatedIn (ep_heap p ! c) = None then Some c else ep_currentSub p) = Some t"
  shows "parseLocatedInExpression p =
     Step (Some ParseSourceFragment)
       (p\<lparr>source := rest, line := TrimSpace l, processed := True,
          ep_heap := (ep_heap p @ [n])[t := ((ep_heap p @ [n]) ! t)\<lparr>ep_LocatedIn := Some (length (ep_heap p))\<rparr>],
          ep_currentSub := Some (length (ep_heap p))\<rparr>)"
proof -
  have h: "HasPrefix (TrimSpace l) ''Located in''"
    and v: "locatedIn_node (TrimPrefix (TrimSpace l) ''Located in'') = Value n"
    using assms(3) by (simp_all add: located_node_of_def Let_def split: result.splits if_splits)
  show ?thesis
    using h v assms(1,2,4,5,6)
    by (auto simp add: parseLocatedInExpression_def fetch_cons Let_def TrimPrefix_longer ep_new_def link_node_def consumeLine_def nth_append split: if_splits)
qed

lemma parseLocatedInExpression_end:
  assumes "processed p" "source p = []"
  shows "parseLocatedInExpression p = Step None p"
  using assms by (simp add: parseLocatedInExpression_def fetch_nil Let_def)

lemma links_loop:
  assumes "links_ok links" "processed p" "source p = link_lines links" "ep_err p = None"
    and "ep_current p = Some 0" "done \<noteq> []" "ep_heap p = build_chain 0 done"
    and "ep_currentSub p = (if length done = 1 then None else Some (length done - 1))"
  shows "\<exists>p'. ep_loop (Some ParseLocatedInExpression) p = Step None p' \<and> ep_err p' = None
            \<and> ep_current p' = Some 0 \<and> ep_output p' = ep_output p
            \<and> ep_heap p' = build_chain 0 (done @ link_nodes links)"
  using assms
proof (induction links arbitrary: p "done")
  case Nil
  then show ?case
    by (simp add: parseLocatedInExpression_end link_nodes_def)
next
  case (Cons x links)
  obtain l f where x: "x = (l, f)" by (cases x)
  obtain n s where n: "located_node_of l = Some n" and s: "fragment_of f = Some s"
    and ok: "links_ok links"
    using Cons.prems(1) x by (auto simp add: links_ok_def)
  let ?h = "ep_heap p"
  let ?k = "length done"
  have len: "length ?h = ?k" using Cons.prems(7) by (simp add: length_build_chain)
  have kpos: "0 < ?k" using Cons.prems(6) by simp
  have tgt: "(if ep_LocatedIn (?h ! 0) = None then Some 0 else ep_currentSub p) = Some (?k - 1)"
    using Cons.prems(6,7,8) build_chain_head_link [of "done" 0] by auto
  let ?h2 = "(?h @ [n])[?k - 1 := ((?h @ [n]) ! (?k - 1))\<lparr>ep_LocatedIn := Some ?k\<rparr>]"
  let ?p2 = "p\<lparr>source := f # link_lines links, line := TrimSpace l, processed := True,
               ep_heap := ?h2, ep_currentSub := Some ?k\<rparr>"
  have st1: "parseLocatedInExpression p = Step (Some ParseSourceFragment) ?p2"
    using parseLocatedInExpression_ok [OF Cons.prems(2) _ n Cons.prems(5) _ tgt, of "f # link_lines links"]
      Cons.prems(3) x len kpos by simp
  let ?h3 = "?h2[?k := (?h2 ! ?k)\<lparr>ep_SourceFragment := s\<rparr>]"
  let ?p3 = "?p2\<lparr>source := link_lines links, line := TrimSpace f, processed := True, ep_heap := ?h3\<rparr>"
  have st2: "parseSourceFragment ?p2 = Step (Some ParseLocatedInExpression) ?p3"
    using parseSourceFragment_ok [of ?p2 f "link_lines links" s ?k] s by simp
  have nl: "ep_LocatedIn n = None" using n by (rule located_node_of_unlinked)
  have h3: "?h3 = build_chain 0 (done @ [(n, s)])"
  proof -
    have "?h2 = ?h[?k - 1 := (?h ! (?k - 1))\<lparr>ep_LocatedIn := Some ?k\<rparr>] @ [n]"
      using len kpos by (simp add: list_update_append nth_append)
    then have "?h3 = ?h[?k - 1 := (?h ! (?k - 1))\<lparr>ep_LocatedIn := Some ?k\<rparr>] @ [n\<lparr>ep_SourceFragment := s\<rparr>]"
      using len by (simp add: list_update_append nth_append)
    moreover have "n\<lparr>ep_SourceFragment := s\<rparr> = n\<lparr>ep_SourceFragment := s, ep_LocatedIn := None\<rparr>"
      using nl by simp
    ultimately show ?thesis
      using build_chain_snoc [OF Cons.prems(6), of 0 n s] Cons.prems(7) by simp
  qed
  have ih: "\<exists>p'. ep_loop (Some ParseLocatedInExpression) ?p3 = Step None p' \<and> ep_err p' = None
            \<and> ep_current p' = Some 0 \<and> ep_output p' = ep_output ?p3
            \<and> ep_heap p' = build_chain 0 ((done @ [(n, s)]) @ link_nodes links)"
  proof (rule Cons.IH [OF ok])
    show "processed ?p3" by simp
    show "source ?p3 = link_lines links" by simp
    show "ep_err ?p3 = None" using Cons.prems(4) by simp
    show "ep_current ?p3 = Some 0" using Cons.prems(5) by simp
    show "done @ [(n, s)] \<noteq> []" by simp
    show "ep_heap ?p3 = build_chain 0 (done @ [(n, s)])" using h3 by simp
    show "ep_currentSub ?p3 =
        (if length (done @ [(n, s)]) = 1 then None else Some (length (done @ [(n, s)]) - 1))"
      using kpos by simp
  qed
  have "ep_loop (Some ParseLocatedInExpression) p = ep_loop (Some ParseLocatedInExpression) ?p3"
    using st1 st2 by simp
  moreover have "link_nodes (x # links) = (n, s) # link_nodes links"
    using x n s by (simp add: link_nodes_def)
  ultimately show ?case using ih by simp
qed

lemma build_chain_nth:
  "i < length xs \<Longrightarrow>
   build_chain a xs ! i =
     (fst (xs ! i))\<lparr>ep_SourceFragment := snd (xs ! i),
                    ep_LocatedIn := (if Suc i = length xs then None else Some (Suc (a + i)))\<rparr>"
proof (induction a xs arbitrary: i rule: build_chain.induct)
  case (1 a)
  then show ?case by simp
next
  case (2 a n s)
  then show ?case by simp
next
  case (3 a n s x xs)
  then show ?case by (cases i) simp_all
qed

lemma chain_from_build_chain:
  assumes "i < length xs" "length xs - i \<le> k"
  shows "chain_from (build_chain 0 xs) k i = Some [i ..< length xs]"
  using assms
proof (induction k arbitrary: i)
  case 0
  then show ?case by simp
next
  case (Suc k)
  show ?case
  proof (cases "Suc i = length xs")
    case True
    then have "[i ..< length xs] = [i]" by (metis upt_rec lessI upt_eq_Nil_conv order_refl)
    then show ?thesis using True Suc.prems by (simp add: length_build_chain build_chain_nth)
  next
    case False
    then have "Suc i < length xs" using Suc.prems by simp
    then have "chain_from (build_chain 0 xs) k (Suc i) = Some [Suc i ..< length xs]"
      using Suc.IH [of "Suc i"] Suc.prems by simp
    moreover have "[i ..< length xs] = i # [Suc i ..< length xs]"
      using Suc.prems by (simp add: upt_rec)
    ultimately show ?thesis using False Suc.prems
      by (simp add: length_build_chain build_chain_nth)
  qed
qed

lemma located_node_of_terminator:
  assumes "TrimSpace l = ''Located in:''"
  shows "located_node_of l = Some zero_ErrorPosition"
proof -
  have "(let l = ''Located in:'' in
         if HasPrefix l ''Located in''
         then (case locatedIn_node (TrimPrefix l ''Located in'') of
                 Value n \<Rightarrow> Some n | Error e \<Rightarrow> None | Crash m \<Rightarrow> None)
         else None) = Some zero_ErrorPosition"
    by code_simp
  then show ?thesis using assms by (simp add: located_node_of_def)
qed

lemma link_nodes_nth:
  "i < length links \<Longrightarrow>
   link_nodes links ! i = (the (located_node_of (fst (links ! i))), the (fragment_of (snd (links ! i))))"
  by (simp add: link_nodes_def case_prod_unfold)

text \<open>
  The chain built from lines that the parser accepts.  Let the input be a top-level
  position line for which \<^verbatim>\<open>parseTopLevel\<close> builds a record,
  a source-fragment line, and then N \<^verbatim>\<open>Located in\<close> lines that the parser recognizes,
  each followed by its source-fragment line.  Then a new ErrorPosition parser sends exactly
  one value, the record at address 0, and closes its output; the heap then holds N + 1
  records, the root and one per \<^verbatim>\<open>Located in\<close> line in input order, each with the
  fragment of its own fragment line; following \<^verbatim>\<open>LocatedIn\<close> from the root visits the
  addresses 0, 1, ..., N once each and ends (no cycle); and the record of a line
  \<^verbatim>\<open>Located in:\<close> has an empty file, a false eval flag, and row and column 0.
\<close>

theorem ErrorPosition_chain:
  assumes "top_node_of l0 = Some n0" "fragment_of f0 = Some s0" "links_ok links"
  shows "ErrorPositionParser_start new_ErrorPositionParser
             (newLineConsumer (l0 # f0 # link_lines links))
           = (Closed [ErrorPositionItem 0], build_chain 0 ((n0, s0) # link_nodes links))
         \<and> chain_from (build_chain 0 ((n0, s0) # link_nodes links)) (Suc (length links)) 0
             = Some [0 ..< Suc (length links)]
         \<and> (\<forall>i < length links. TrimSpace (fst (links ! i)) = ''Located in:'' \<longrightarrow>
               ep_File (build_chain 0 ((n0, s0) # link_nodes links) ! Suc i) = []
               \<and> \<not> ep_Eval (build_chain 0 ((n0, s0) # link_nodes links) ! Suc i)
               \<and> ep_Row (build_chain 0 ((n0, s0) # link_nodes links) ! Suc i) = 0
               \<and> ep_Column (build_chain 0 ((n0, s0) # link_nodes links) ! Suc i) = 0)"
proof (intro conjI allI impI)
  let ?p0 = "new_ErrorPositionParser\<lparr>source := l0 # f0 # link_lines links, line := [],
               processed := True, ep_output := []\<rparr>"
  let ?p1 = "?p0\<lparr>source := f0 # link_lines links, line := TrimSpace l0, processed := True,
               ep_heap := ep_heap ?p0 @ [n0], ep_current := Some (length (ep_heap ?p0))\<rparr>"
  let ?p2 = "?p1\<lparr>source := link_lines links, line := TrimSpace f0, processed := True,
               ep_heap := (ep_heap ?p1)[0 := (ep_heap ?p1 ! 0)\<lparr>ep_SourceFragment := s0\<rparr>]\<rparr>"
  have st1: "parseTopLevel ?p0 = Step (Some ParseSourceFragment) ?p1"
    using parseTopLevel_ok [of ?p0 l0 "f0 # link_lines links" n0] assms(1) by simp
  have st2: "parseSourceFragment ?p1 = Step (Some ParseLocatedInExpression) ?p2"
    using parseSourceFragment_ok [of ?p1 f0 "link_lines links" s0 0] assms(2)
    by (simp add: new_ErrorPositionParser_def)
  have n0: "ep_LocatedIn n0 = None" using assms(1) by (rule top_node_of_unlinked)
  have "\<exists>p'. ep_loop (Some ParseLocatedInExpression) ?p2 = Step None p' \<and> ep_err p' = None
            \<and> ep_current p' = Some 0 \<and> ep_output p' = ep_output ?p2
            \<and> ep_heap p' = build_chain 0 ([(n0, s0)] @ link_nodes links)"
  proof (rule links_loop [OF assms(3)])
    show "processed ?p2" by simp
    show "source ?p2 = link_lines links" by simp
    show "ep_err ?p2 = None" by (simp add: new_ErrorPositionParser_def)
    show "ep_current ?p2 = Some 0" by (simp add: new_ErrorPositionParser_def)
    show "[(n0, s0)] \<noteq> []" by simp
    show "ep_heap ?p2 = build_chain 0 [(n0, s0)]"
      using n0 by (simp add: new_ErrorPositionParser_def)
    show "ep_currentSub ?p2 = (if length [(n0, s0)] = 1 then None else Some (length [(n0, s0)] - 1))"
      by (simp add: new_ErrorPositionParser_def)
  qed
  then obtain p' where p': "ep_loop (Some ParseLocatedInExpression) ?p2 = Step None p'"
    "ep_err p' = None" "ep_current p' = Some 0" "ep_output p' = []"
    "ep_heap p' = build_chain 0 ((n0, s0) # link_nodes links)"
    by auto
  have "ep_loop (Some ParseTopLevel) ?p0 = Step None p'"
    using st1 st2 p'(1) by simp
  then show "ErrorPositionParser_start new_ErrorPositionParser
             (newLineConsumer (l0 # f0 # link_lines links))
           = (Closed [ErrorPositionItem 0], build_chain 0 ((n0, s0) # link_nodes links))"
    using p'(2-5)
    by (simp add: ErrorPositionParser_start_def ErrorPositionParser_run_def newLineConsumer_def)
next
  have "length (link_nodes links) = length links" by (simp add: link_nodes_def)
  then show "chain_from (build_chain 0 ((n0, s0) # link_nodes links)) (Suc (length links)) 0
             = Some [0 ..< Suc (length links)]"
    using chain_from_build_chain [of 0 "(n0, s0) # link_nodes links" "Suc (length links)"] by simp
next
  fix i
  assume i: "i < length links" and t: "TrimSpace (fst (links ! i)) = ''Located in:''"
  have len: "length (link_nodes links) = length links" by (simp add: link_nodes_def)
  have "fst (((n0, s0) # link_nodes links) ! Suc i) = zero_ErrorPosition"
    using i located_node_of_terminator [OF t] by (simp add: link_nodes_nth)
  then have e: "build_chain 0 ((n0, s0) # link_nodes links) ! Suc i =
      zero_ErrorPosition\<lparr>ep_SourceFragment := snd (((n0, s0) # link_nodes links) ! Suc i),
         ep_LocatedIn := (if Suc (Suc i) = length ((n0, s0) # link_nodes links) then None
                          else Some (Suc (0 + Suc i)))\<rparr>"
    using build_chain_nth [of "Suc i" "(n0, s0) # link_nodes links" 0] i len by simp
  show "ep_File (build_chain 0 ((n0, s0) # link_nodes links) ! Suc i) = []"
    unfolding e by (simp add: zero_ErrorPosition_def)
  show "\<not> ep_Eval (build_chain 0 ((n0, s0) # link_nodes links) ! Suc i)"
    unfolding e by (simp add: zero_ErrorPosition_def)
  show "ep_Row (build_chain 0 ((n0, s0) # link_nodes links) ! Suc i) = 0"
    unfolding e by (simp add: zero_ErrorPosition_def)
  show "ep_Column (build_chain 0 ((n0, s0) # link_nodes links) ! Suc i) = 0"
    unfolding e by (simp add: zero_ErrorPosition_def)
qed

theorem ErrorPosition_chain_example:
  "top_node_of ''In eval expression, line 1, column 3:''
     = Some (zero_ErrorPosition\<lparr>ep_Eval := True, ep_Row := 1, ep_Column := 3\<rparr>)
   \<and> fragment_of ''>> 3 mod 0;'' = Some ''3 mod 0;''
   \<and> links_ok epo_example_links
   \<and> ErrorPositionParser_start new_ErrorPositionParser
        (newLineConsumer
           [''In eval expression, line 1, column 3:'', ''>> 3 mod 0;'',
            ''Located in enclosing eval expression, at line 1, column 1:'', ''>> eval x;'',
            ''Located in:'', ''>> eval y;''])
       = (Closed [ErrorPositionItem 0], epo_example_heap)
   \<and> chain_from epo_example_heap 3 0 = Some [0, 1, 2]
   \<and> TrimSpace (fst (epo_example_links ! 1)) = ''Located in:''
   \<and> ep_File (epo_example_heap ! 2) = [] \<and> \<not> ep_Eval (epo_example_heap ! 2)
   \<and> ep_Row (epo_example_heap ! 2) = 0 \<and> ep_Column (epo_example_heap ! 2) = 0"
proof -
  have h1: "top_node_of ''In eval expression, line 1, column 3:''
     = Some (zero_ErrorPosition\<lparr>ep_Eval := True, ep_Row := 1, ep_Column := 3\<rparr>)"
    by code_simp
  have h2: "fragment_of ''>> 3 mod 0;'' = Some ''3 mod 0;''"
    by code_simp
  have h3: "links_ok epo_example_links"
    by code_simp
  have ln: "link_lines epo_example_links =
      [''Located in enclosing eval expression, at line 1, column 1:'', ''>> eval x;'',
       ''Located in:'', ''>> eval y;'']"
    by (simp add: epo_example_links_def)
  have hp: "build_chain 0
      ((zero_ErrorPosition\<lparr>ep_Eval := True, ep_Row := 1, ep_Column := 3\<rparr>, ''3 mod 0;'')
       # link_nodes epo_example_links) = epo_example_heap"
    by code_simp
  have t: "(1::nat) < length epo_example_links \<and> TrimSpace (fst (epo_example_links ! 1)) = ''Located in:''"
    by code_simp
  note T = ErrorPosition_chain [OF h1 h2 h3, unfolded ln hp]
  have c1: "ErrorPositionParser_start new_ErrorPositionParser
        (newLineConsumer
           [''In eval expression, line 1, column 3:'', ''>> 3 mod 0;'',
            ''Located in enclosing eval expression, at line 1, column 1:'', ''>> eval x;'',
            ''Located in:'', ''>> eval y;''])
       = (Closed [ErrorPositionItem 0], epo_example_heap)"
    using T by blast
  have "[0 ..< Suc (length epo_example_links)] = [0, 1, 2]"
    by (simp add: epo_example_links_def upt_rec)
  moreover have "Suc (length epo_example_links) = 3" by (simp add: epo_example_links_def)
  ultimately have c2: "chain_from epo_example_heap 3 0 = Some [0, 1, 2]"
    using T by metis
  from T t have "ep_File (epo_example_heap ! Suc 1) = [] \<and> \<not> ep_Eval (epo_example_heap ! Suc 1)
     \<and> ep_Row (epo_example_heap ! Suc 1) = 0 \<and> ep_Column (epo_example_heap ! Suc 1) = 0"
    by blast
  then have c3: "ep_File (epo_example_heap ! 2) = [] \<and> \<not> ep_Eval (epo_example_heap ! 2)
     \<and> ep_Row (epo_example_heap ! 2) = 0 \<and> ep_Column (epo_example_heap ! 2) = 0"
    by (simp add: numeral_2_eq_2)
  show ?thesis using h1 h2 h3 c1 c2 c3 t by blast
qed

text \<open>
  Claim C7 says that for every input made of a recognized top-level position line, a
  source-fragment line and N \<^verbatim>\<open>Located in\<close> lines, each followed by its fragment line,
  the parser emits exactly one record with a chain of N + 1 nodes.  The source names two
  top-level forms, \<^verbatim>\<open>In eval expression, line <x>, column <y>:\<close> and
  \<^verbatim>\<open>In file "<path-to-file>", line <x>, column <y>:\<close>.  For the first one
  \<^verbatim>\<open>parseTopLevel\<close> cuts the final colon off before it extracts row and column, and so
  does \<^verbatim>\<open>parseLocatedInExpression\<close> for \<^verbatim>\<open>Located in file\<close>; for the second one it
  passes the line on with its colon.  The column \<^verbatim>\<open>5:\<close> is then not a number: on an
  input of the claimed shape that starts with such a line the parser sends one error and
  no record, and allocates no node.  The same input with the top-level line for an eval
  expression gives the one record and the chain of three nodes, the second one read from
  a \<^verbatim>\<open>Located in file\<close> line that ends with a colon.
\<close>

theorem ErrorPosition_top_level_file_fails:
  "ErrorPositionParser_start new_ErrorPositionParser
     (newLineConsumer
        [''In file '' @ [CHR 0x22] @ ''/tmp/2.m'' @ [CHR 0x22] @ '', line 2, column 5:'',
         ''>> 3 mod 0;'',
         ''Located in file '' @ [CHR 0x22] @ ''/tmp/1.m'' @ [CHR 0x22] @ '', at line 2, column 5:'',
         ''>> eval x;'',
         ''Located in:'',
         ''>> eval y;''])
     = (Closed [ErrorPositionErr (ErrSyntax ''5:'')], [])
   \<and> ErrorPositionParser_start new_ErrorPositionParser
       (newLineConsumer
          [''In eval expression, line 1, column 3:'',
           ''>> 3 mod 0;'',
           ''Located in file '' @ [CHR 0x22] @ ''/tmp/1.m'' @ [CHR 0x22] @ '', at line 2, column 5:'',
           ''>> eval x;'',
           ''Located in:'',
           ''>> eval y;''])
     = (Closed [ErrorPositionItem 0],
        [zero_ErrorPosition\<lparr>ep_Eval := True, ep_Row := 1, ep_Column := 3,
           ep_SourceFragment := ''3 mod 0;'', ep_LocatedIn := Some 1\<rparr>,
         zero_ErrorPosition\<lparr>ep_File := ''/tmp/1.m'', ep_Row := 2, ep_Column := 5,
           ep_SourceFragment := ''eval x;'', ep_LocatedIn := Some 2\<rparr>,
         zero_ErrorPosition\<lparr>ep_SourceFragment := ''eval y;''\<rparr>])
   \<and> extractFileRowColumn ([CHR 0x22] @ ''/tmp/2.m'' @ [CHR 0x22] @ '', line 2, column 5:'')
     = Error (ErrSyntax ''5:'')
   \<and> extractFileRowColumn ([CHR 0x22] @ ''/tmp/2.m'' @ [CHR 0x22] @ '', line 2, column 5'')
     = Value ([CHR 0x22] @ ''/tmp/2.m'' @ [CHR 0x22], 2, 5)"
  by code_simp

subsection \<open>The Traceback parser\<close>

text \<open>
  Claim C8 says that for a header that starts with \<^verbatim>\<open>#\<close> and does not split into
  exactly two fields the Traceback parser sends one error value and stops, rather than
  crashing.  The source does not store the error it formats, so
  \<^verbatim>\<open>parseTracebackError\<close> finds \<^verbatim>\<open>p.err == nil\<close> and panics: for the header
  \<^verbatim>\<open>#0(\<close> (one field) and for \<^verbatim>\<open>#0 *Test one(\<close> (three fields) nothing is sent and the
  parser goroutine panics.  The sibling failure, an index that is not a number, does
  send one error and close.
\<close>

theorem traceback_bad_header_panics:
  "TracebackParser_start new_TracebackParser
       (newLineConsumer [''#0('', ''    x: 0'', '') at <main>:2''])
     = Crashed ''parser error triggered but error value not set'' []
   \<and> TracebackParser_start new_TracebackParser
       (newLineConsumer [''#0 *Test one('', ''    x: 0'', '') at <main>:2''])
     = Crashed ''parser error triggered but error value not set'' []
   \<and> TracebackParser_start new_TracebackParser
       (newLineConsumer [''#x *Test('', ''    x: 0'', '') at <main>:2''])
     = Closed [TracebackErr (ErrSyntax ''x'')]"
  by code_simp

subsection \<open>The Ready tag\<close>

lemma ready_result:
  assumes "current_open w"
  shows "\<exists>w1. ready w = Ok (h_r w \<noteq> None, w1) \<and> h_c w1 = None \<and> h_r w1 = None
           \<and> trace w1 = trace w @ ready_closes w \<and> rch w1 = rch w \<and> fresh w1 = fresh w
           \<and> closed_r w1 = closed_r w \<union> (case h_c w of None \<Rightarrow> {} | Some s \<Rightarrow> {responser_ch s})
           \<and> closed_o w1 = closed_o w \<union> (case h_r w of None \<Rightarrow> {} | Some e \<Rightarrow> {out_ch e})"
  using assms
  by (cases "h_c w"; cases "h_r w")
     (simp_all add: current_open_def ready_def close_response_def close_output_def emit_def
        ready_closes_def)

text \<open>
  Claim C3.  Let the decoder process a \<^verbatim>\<open>RDY\<close> tag whose fields parse, in a state
  where the channels of the current Response and the current Output (if any) have not
  been closed.  Then \<^verbatim>\<open>ready\<close> returns, and it returns true exactly when there was
  a current Output; it closes the current Response and the current Output, if any, and
  clears both.  The decoder then offers a new handshake channel on \<^verbatim>\<open>p.ready\<close>, and
  keeps it in \<^verbatim>\<open>rch\<close>, if \<^verbatim>\<open>ready\<close> returned true; otherwise it adds no event and
  leaves \<^verbatim>\<open>rch\<close> as it was.
\<close>

theorem ready_tag_handshake:
  assumes "parseReady tagFields = Value r" and "current_open w"
  shows "\<exists>w1 w2.
           ready (emit (EvStatus (ReadyV r)) w) = Ok (h_r w \<noteq> None, w1)
         \<and> h_c w1 = None \<and> h_r w1 = None
         \<and> trace w1 = trace w @ [EvStatus (ReadyV r)] @ ready_closes w
         \<and> closed_r w1 = closed_r w \<union> (case h_c w of None \<Rightarrow> {} | Some s \<Rightarrow> {responser_ch s})
         \<and> closed_o w1 = closed_o w \<union> (case h_r w of None \<Rightarrow> {} | Some e \<Rightarrow> {out_ch e})
         \<and> statusSwitch TagReady tagFields env w = Some (Next w2)
         \<and> h_c w2 = None \<and> h_r w2 = None
         \<and> trace w2 = trace w1 @ (if h_r w \<noteq> None then [EvReadyOffer (fresh w)] else [])
         \<and> rch w2 = (if h_r w \<noteq> None then Some (fresh w) else rch w)
         \<and> fresh w2 = (if h_r w \<noteq> None then Suc (fresh w) else fresh w)"
proof -
  let ?w0 = "emit (EvStatus (ReadyV r)) w"
  have co: "current_open ?w0"
    using assms(2) by (simp add: current_open_def emit_def split: option.splits)
  from ready_result [OF co] obtain w1 where
    w1: "ready ?w0 = Ok (h_r ?w0 \<noteq> None, w1)" "h_c w1 = None" "h_r w1 = None"
        "trace w1 = trace ?w0 @ ready_closes ?w0" "rch w1 = rch ?w0" "fresh w1 = fresh ?w0"
        "closed_r w1 = closed_r ?w0 \<union> (case h_c ?w0 of None \<Rightarrow> {} | Some s \<Rightarrow> {responser_ch s})"
        "closed_o w1 = closed_o ?w0 \<union> (case h_r ?w0 of None \<Rightarrow> {} | Some e \<Rightarrow> {out_ch e})"
    by blast
  have e: "h_r ?w0 = h_r w" "h_c ?w0 = h_c w" "trace ?w0 = trace w @ [EvStatus (ReadyV r)]"
    "rch ?w0 = rch w" "fresh ?w0 = fresh w" "closed_r ?w0 = closed_r w" "closed_o ?w0 = closed_o w"
    "ready_closes ?w0 = ready_closes w"
    by (simp_all add: emit_def ready_closes_def)
  show ?thesis
  proof (cases "h_r w = None")
    case True
    then have "statusSwitch TagReady tagFields env w = Some (Next w1)"
      using assms(1) w1(1) e(1) by (simp add: statusSwitch_def)
    then show ?thesis using w1 e True by auto
  next
    case False
    let ?w2 = "emit (EvReadyOffer (fresh w1)) (w1\<lparr>rch := Some (fresh w1), fresh := Suc (fresh w1)\<rparr>)"
    have "statusSwitch TagReady tagFields env w = Some (Next ?w2)"
      using assms(1) w1(1) e(1) False by (simp add: statusSwitch_def)
    moreover have "h_c ?w2 = None" "h_r ?w2 = None" "trace ?w2 = trace w1 @ [EvReadyOffer (fresh w)]"
      "rch ?w2 = Some (fresh w)" "fresh ?w2 = Suc (fresh w)"
      using w1 e by (simp_all add: emit_def)
    ultimately show ?thesis using w1 e False by auto
  qed
qed

lemma parseReady_example:
  "parseReady [''1'', ''0'', ''0'', ''1'', ''12'']
     = Value \<lparr>Ident = True, Frame = False, Verbose = False, Set_changed = True, Types = 12\<rparr>"
  by code_simp

lemma current_open_world_open: "current_open world_open"
  by (simp add: current_open_def world_open_def)

theorem ready_tag_handshake_witness:
  "parseReady [''1'', ''0'', ''0'', ''1'', ''12''] = Value ready_example
   \<and> current_open world_open
   \<and> (\<exists>w1 w2. ready (emit (EvStatus (ReadyV ready_example)) world_open) = Ok (True, w1)
          \<and> h_c w1 = None \<and> h_r w1 = None
          \<and> statusSwitch TagReady [''1'', ''0'', ''0'', ''1'', ''12''] empty_inbox world_open
               = Some (Next w2)
          \<and> h_c w2 = None \<and> h_r w2 = None
          \<and> trace w2 = trace world_open @
                 [EvStatus (ReadyV ready_example), EvCloseResponse (RChan 0),
                  EvCloseOutput (OChan 0), EvReadyOffer 1]
          \<and> rch w2 = Some 1)"
proof -
  have p: "parseReady [''1'', ''0'', ''0'', ''1'', ''12''] = Value ready_example"
    by (simp add: parseReady_example ready_example_def)
  have c: "ready_closes world_open = [EvCloseResponse (RChan 0), EvCloseOutput (OChan 0)]"
    "h_r world_open \<noteq> None" "fresh world_open = 1"
    by (simp_all add: ready_closes_def world_open_def)
  from ready_tag_handshake [OF p current_open_world_open, of empty_inbox]
  show ?thesis using p current_open_world_open c by auto
qed


subsection \<open>Quit\<close>

lemma Execute_frame:
  "p_quit (call_state (Execute s p)) = p_quit p
   \<and> p_closed (call_state (Execute s p)) = p_closed p
   \<and> checkRunning (call_state (Execute s p)) = checkRunning p"
  by (simp add: Execute_def checkRunning_def newOutput_def Write_def Let_def
      split: option.splits list.splits prod.splits)

lemma Quit_registers:
  assumes "checkRunning p = None" "\<not> p_closed p" "p_quit p = []"
  shows "p_quit (call_state (Quit p)) = [AChan (next_chan p)]
         \<and> checkRunning (call_state (Quit p)) = None \<and> \<not> p_closed (call_state (Quit p))"
proof -
  let ?p1 = "p\<lparr>next_chan := Suc (next_chan p), p_quit := [AChan (next_chan p)]\<rparr>"
  have q: "call_state (Quit p) = call_state (Execute ''quit;'' ?p1)"
    using assms by (simp add: Quit_def Let_def split: call.splits)
  have "checkRunning ?p1 = None"
    using assms(1) by (simp add: checkRunning_def split: if_splits)
  then show ?thesis using Execute_frame [of "''quit;''" ?p1] q assms by simp
qed

text \<open>
  Claim C9.  If the process is running, its channels have not been closed, and a quit
  acknowledgment channel is still registered in \<^verbatim>\<open>p.quit\<close>, then \<^verbatim>\<open>Quit\<close> returns
  the error \<^verbatim>\<open>Quit() has already been called\<close>; it does not call \<^verbatim>\<open>Execute\<close>:
  nothing is written to the child's standard input, no handshake channel is taken and
  no Output is sent, and the registration stays as it was.
\<close>

theorem Quit_twice:
  assumes "checkRunning p = None" and "\<not> p_closed p" and "p_quit p \<noteq> []"
  shows "Quit p = Failed (ErrorNew ''magma/proc: Quit() has already been called'')
                    (p\<lparr>next_chan := Suc (next_chan p)\<rparr>)
         \<and> stdin (call_state (Quit p)) = stdin p
         \<and> handshake (call_state (Quit p)) = handshake p
         \<and> p_ready (call_state (Quit p)) = p_ready p
         \<and> p_quit (call_state (Quit p)) = p_quit p"
proof -
  have "\<not> length (p_quit p) < 1" using assms(3) by (cases "p_quit p") simp_all
  then have "Quit p = Failed (ErrorNew ''magma/proc: Quit() has already been called'')
                    (p\<lparr>next_chan := Suc (next_chan p)\<rparr>)"
    using assms(1,2) by (simp add: Quit_def Let_def)
  then show ?thesis by simp
qed

lemma Quit_process_example:
  "Quit process_example =
     Waiting ''p.response''
       (process_example\<lparr>p_ready := [], p_writer := False, p_quit := [AChan 2],
          handshake := [(1, \<lparr>cmd = ''quit;'', out_ch = OChan 3\<rparr>)],
          stdin := [''quit;'', [runCommandChar]], next_chan := 4\<rparr>)"
  by (simp add: Quit_def Execute_def checkRunning_def newOutput_def Write_def Let_def
      process_example_def)

theorem Quit_twice_witness:
  "checkRunning (call_state (Quit process_example)) = None
   \<and> \<not> p_closed (call_state (Quit process_example))
   \<and> p_quit (call_state (Quit process_example)) = [AChan 2]
   \<and> stdin (call_state (Quit process_example)) = [''quit;'', [runCommandChar]]
   \<and> Quit (call_state (Quit process_example))
       = Failed (ErrorNew ''magma/proc: Quit() has already been called'')
           ((call_state (Quit process_example))\<lparr>next_chan := 5\<rparr>)
   \<and> stdin (call_state (Quit (call_state (Quit process_example))))
       = [''quit;'', [runCommandChar]]"
proof -
  let ?p1 = "call_state (Quit process_example)"
  have a: "checkRunning ?p1 = None" "\<not> p_closed ?p1" "p_quit ?p1 = [AChan 2]"
    "stdin ?p1 = [''quit;'', [runCommandChar]]" "next_chan ?p1 = 4"
    unfolding Quit_process_example call_state.simps
    by (simp_all add: checkRunning_def process_example_def)
  have b: "p_quit ?p1 \<noteq> []" using a(3) by simp
  from Quit_twice [OF a(1) a(2) b] show ?thesis using a by simp
qed


end
